theory Spec2Isabelle
  imports Complex_Main
begin

text \<open>
  A shallow embedding of the click ingestion and analytics core of the SnapURL service:
  the IP normaliser and the ingestion pipeline of the analytics service, the save hooks
  and the aggregation statics of the click model, and the retention purge. The store is
  a list of click documents in insertion order together with the URL documents; every
  call that leaves the process (a database call, the geolocation table, the clock) is an
  explicit argument, so that each \<open>throw\<close> and each \<open>catch\<close> of the source is a branch
  of the model.
\<close>

section \<open>Strings\<close>

text \<open>
  A JavaScript string is modelled as a \<^typ>\<open>string\<close>: one \<^typ>\<open>char\<close> per UTF-16 code
  unit, restricted to the Latin-1 range in which Node delivers socket addresses and
  header values. An absent value (\<open>undefined\<close> or \<open>null\<close>) is \<^term>\<open>None\<close>.
\<close>

definition truthy :: "string option \<Rightarrow> bool" where
  \<comment> \<open>JavaScript truthiness of an optional string: absent and the empty string are falsy.\<close>
  "truthy v = (case v of None \<Rightarrow> False | Some s \<Rightarrow> s \<noteq> [])"

definition startsWith :: "string \<Rightarrow> string \<Rightarrow> bool" where
  "startsWith s p = (take (length p) s = p)"

fun split_on :: "char \<Rightarrow> string \<Rightarrow> string list" where
  \<comment> \<open>\<open>s.split(sep)\<close> for a one-character separator; the empty string gives one empty part.\<close>
  "split_on sep [] = [[]]"
| "split_on sep (c # cs) =
     (if c = sep then [] # split_on sep cs
      else (case split_on sep cs of
              [] \<Rightarrow> [[c]]
            | p # ps \<Rightarrow> (c # p) # ps))"

fun joinWith :: "string \<Rightarrow> string list \<Rightarrow> string" where
  \<comment> \<open>\<open>parts.join(sep)\<close>.\<close>
  "joinWith sep [] = []"
| "joinWith sep [x] = x"
| "joinWith sep (x # y # ys) = x @ sep @ joinWith sep (y # ys)"

definition isWhiteSpace :: "char \<Rightarrow> bool" where
  \<comment> \<open>The code units below 256 that \<open>String.prototype.trim\<close> removes:
      TAB, LF, VT, FF, CR, SPACE and NO-BREAK SPACE.\<close>
  "isWhiteSpace c =
     (c \<in> set [CHR 0x09, CHR 0x0A, CHR 0x0B, CHR 0x0C, CHR 0x0D, CHR 0x20, CHR 0xA0])"

definition trim :: "string \<Rightarrow> string" where
  "trim s = rev (dropWhile isWhiteSpace (rev (dropWhile isWhiteSpace s)))"

definition isDigit :: "char \<Rightarrow> bool" where
  \<comment> \<open>The regular-expression class \<open>\d\<close>.\<close>
  "isDigit c = (c \<in> set ''0123456789'')"

definition digitVal :: "char \<Rightarrow> nat" where
  "digitVal c = (case map_of (zip ''0123456789'' [0, 1, 2, 3, 4, 5, 6, 7, 8, 9]) c of
                   None \<Rightarrow> 0 | Some d \<Rightarrow> d)"

definition parseInt10 :: "string \<Rightarrow> nat option" where
  \<comment> \<open>\<open>parseInt(s, 10)\<close> on a string without leading white space or sign (the only strings
      it is applied to here): the value of the longest prefix of digits, \<open>NaN\<close>
      (\<^term>\<open>None\<close>) when that prefix is empty.\<close>
  "parseInt10 s =
     (let ds = takeWhile isDigit s
      in if ds = [] then None else Some (foldl (\<lambda>acc c. 10 * acc + digitVal c) 0 ds))"

section \<open>IP normalisation (analytics service)\<close>

definition ipv4Regex_test :: "string \<Rightarrow> bool" where
  \<comment> \<open>\<open>/^(\d{1,3}\.){3}\d{1,3}$/.test(ip)\<close>: exactly four dot-separated groups of one to
      three digits. Digits and the dot are disjoint, so the match is decided by splitting
      at the dots. Without the \<open>m\<close> flag, \<open>$\<close> matches at the very end only.\<close>
  "ipv4Regex_test ip =
     (let parts = split_on (CHR ''.'') ip
      in length parts = 4 \<and>
         list_all (\<lambda>p. 1 \<le> length p \<and> length p \<le> 3 \<and> list_all isDigit p) parts)"

definition isValidIPv4 :: "string \<Rightarrow> bool" where
  "isValidIPv4 ip =
     (if \<not> ipv4Regex_test ip then False
      else list_all (\<lambda>part. case parseInt10 part of
                               None \<Rightarrow> False
                             | Some num \<Rightarrow> 0 \<le> num \<and> num \<le> 255)
             (split_on (CHR ''.'') ip))"

definition octet :: "string \<Rightarrow> bool" where
  \<comment> \<open>One group of a dotted quad: one to three decimal digits with a value of at most 255.\<close>
  "octet p = (1 \<le> length p \<and> length p \<le> 3 \<and> list_all isDigit p \<and>
              foldl (\<lambda>acc c. 10 * acc + digitVal c) 0 p \<le> 255)"

definition privateRanges :: "(string \<Rightarrow> bool) list" where
  \<comment> \<open>The seven anchored patterns of \<open>_isPublicIP\<close>, in the source's order.\<close>
  "privateRanges =
     [ \<lambda>ip. startsWith ip ''10.'',
       \<lambda>ip. startsWith ip ''172.'' \<and>
            (case drop 4 ip of
               a # b # c # _ \<Rightarrow>
                 ((a = CHR ''1'' \<and> b \<in> set ''6789'') \<or>
                  (a = CHR ''2'' \<and> b \<in> set ''0123456789'') \<or>
                  (a = CHR ''3'' \<and> b \<in> set ''01'')) \<and> c = CHR ''.''
             | _ \<Rightarrow> False),
       \<lambda>ip. startsWith ip ''192.168.'',
       \<lambda>ip. startsWith ip ''127.'',
       \<lambda>ip. startsWith ip ''169.254.'',
       \<lambda>ip. startsWith ip ''224.'',
       \<lambda>ip. startsWith ip ''0.'' ]"

definition isPublicIP :: "string \<Rightarrow> bool" where
  \<comment> \<open>\<open>_isPublicIP\<close>; the empty string is falsy and therefore not public.\<close>
  "isPublicIP ip = (if ip = [] then False else \<not> list_ex (\<lambda>range. range ip) privateRanges)"

definition extractFromForwardedFor :: "string option \<Rightarrow> string option" where
  "extractFromForwardedFor forwardedFor =
     (case forwardedFor of
        None \<Rightarrow> None
      | Some ff \<Rightarrow>
          if ff = [] then None
          else (let ips = map trim (split_on (CHR '','') ff)
                in case find isPublicIP ips of
                     Some candidateIp \<Rightarrow> Some candidateIp
                   | None \<Rightarrow> (case ips of
                                [] \<Rightarrow> None
                              | first # _ \<Rightarrow> if first = [] then None else Some first)))"

type_synonym headers = "string \<Rightarrow> string option"

definition ipSources :: "string option \<Rightarrow> headers \<Rightarrow> string list" where
  \<comment> \<open>The candidate list after \<open>.filter(Boolean)\<close>: absent and empty entries are dropped.\<close>
  "ipSources ip hdrs =
     map the (filter truthy
       [ ip,
         hdrs ''cf-connecting-ip'',
         hdrs ''x-real-ip'',
         extractFromForwardedFor (hdrs ''x-forwarded-for''),
         hdrs ''x-client-ip'',
         hdrs ''x-forwarded'',
         hdrs ''forwarded-for'',
         hdrs ''forwarded'' ])"

definition normalizeCandidate :: "string \<Rightarrow> string" where
  \<comment> \<open>The three rewriting steps of the loop body, applied in the source's order.\<close>
  "normalizeCandidate candidateIp =
     (let n1 = (if startsWith candidateIp ''::ffff:'' then drop 7 candidateIp else candidateIp);
          n2 = (if n1 = ''::1'' then ''127.0.0.1'' else n1);
          n3 = (if n2 = ''localhost'' then ''127.0.0.1'' else n2)
      in n3)"

fun firstValid :: "string list \<Rightarrow> string" where
  \<comment> \<open>The \<open>for \<dots> of ipSources\<close> loop with its fallback.\<close>
  "firstValid [] = ''127.0.0.1''"
| "firstValid (candidateIp # rest) =
     (let normalizedIp = normalizeCandidate candidateIp
      in if isValidIPv4 normalizedIp then normalizedIp else firstValid rest)"

definition normalizeIpAddress :: "string option \<Rightarrow> headers \<Rightarrow> string" where
  \<comment> \<open>\<open>_normalizeIpAddress(ip, headers)\<close>.\<close>
  "normalizeIpAddress ip hdrs = firstValid (ipSources ip hdrs)"

section \<open>The click model\<close>

text \<open>
  Object ids are natural numbers and dates are milliseconds since the epoch. A malformed
  id string cannot be written in this model; every id is a well-formed \<open>ObjectId\<close>.
\<close>

type_synonym objectId = nat
type_synonym date = int

datatype error = Error string

record geoLocation =
  country :: "string option"
  countryName :: "string option"
  region :: "string option"
  city :: "string option"
  timezone :: "string option"
  coordinates :: "(rat \<times> rat) option"

record deviceInfo =
  device_type :: string
  browser :: "string option"

text \<open>
  The fields of the click schema that the ingestion path and the aggregations read.
  \<open>campaign\<close>, \<open>customData\<close> and the remaining \<open>device\<close> sub-fields are carried by the
  source but read by none of the operations below, and are left out.
\<close>

record click =
  urlId :: objectId
  userId :: "objectId option"
  ipAddress :: string
  userAgent :: "string option"
  referrer :: "string option"
  location :: geoLocation
  device :: deviceInfo
  isBot :: bool
  isUnique :: bool
  sessionId :: "string option"
  loadTime :: "rat option"
  clickedAt :: date

text \<open>
  What \<open>geoip.lookup\<close> returns for an address it knows; country codes come in upper case,
  as the schema's \<open>uppercase\<close> setter would leave them.
\<close>

record geo =
  geo_country :: string
  geo_region :: string
  geo_city :: string
  geo_timezone :: string
  geo_ll :: "rat \<times> rat"

datatype lookupResult = LookupThrew | LookupNull | LookupGeo geo

text \<open>
  Everything outside the repository that a call depends on: the configuration flag
  \<open>config.enableGeolocation\<close>, the \<open>geoip-lite\<close> table, the clock, and for each store
  call whether it rejects (\<^term>\<open>Some msg\<close>, the message of the rejection) or goes
  through (\<^term>\<open>None\<close>).
\<close>

record env =
  enableGeolocation :: bool
  geoip_lookup :: "string \<Rightarrow> lookupResult"
  now :: date
  findById_fault :: "string option"
  findOne_fault :: "string option"
  save_fault :: "string option"
  urlUpdate_fault :: "string option"
  userUpdate_fault :: "string option"

definition emptyLocation :: geoLocation where
  "emptyLocation = \<lparr> country = None, countryName = None, region = None, city = None,
                      timezone = None, coordinates = None \<rparr>"

definition localPrivateLocation :: geoLocation where
  "localPrivateLocation =
     \<lparr> country = Some ''XX'', countryName = Some ''Local/Private'', region = Some ''Local'',
       city = Some ''Local'', timezone = None, coordinates = None \<rparr>"

definition isLocalOrPrivate :: "string \<Rightarrow> bool" where
  \<comment> \<open>The condition of the geolocation hook's first branch.\<close>
  "isLocalOrPrivate ip =
     (ip = ''127.0.0.1'' \<or> ip = ''::1'' \<or> startsWith ip ''192.168.'' \<or>
      startsWith ip ''10.'' \<or> startsWith ip ''172.'')"

definition geoHook :: "env \<Rightarrow> bool \<Rightarrow> click \<Rightarrow> click \<times> string list" where
  \<comment> \<open>The first \<open>pre("save")\<close> hook. The second component lists the addresses handed to
      \<open>geoip.lookup\<close>, that is, the external lookups performed.\<close>
  "geoHook e isNew c =
     (if isNew \<and> enableGeolocation e \<and> ipAddress c \<noteq> [] then
        if isLocalOrPrivate (ipAddress c) then (c\<lparr>location := localPrivateLocation\<rparr>, [])
        else (case geoip_lookup e (ipAddress c) of
                LookupGeo g \<Rightarrow>
                  (c\<lparr>location :=
                       \<lparr> country = Some (geo_country g), countryName = Some (geo_country g),
                         region = Some (geo_region g), city = Some (geo_city g),
                         timezone = Some (geo_timezone g), coordinates = Some (geo_ll g) \<rparr>\<rparr>,
                   [ipAddress c])
              | LookupNull \<Rightarrow> (c, [ipAddress c])
              | LookupThrew \<Rightarrow> (c, [ipAddress c]))
      else (c, []))"

definition toLowerAscii :: "char \<Rightarrow> char" where
  "toLowerAscii c =
     (case map_of (zip ''ABCDEFGHIJKLMNOPQRSTUVWXYZ'' ''abcdefghijklmnopqrstuvwxyz'') c of
        None \<Rightarrow> c | Some l \<Rightarrow> l)"

fun containsAt :: "string \<Rightarrow> string \<Rightarrow> bool" where
  \<comment> \<open>Unanchored search for a literal pattern, trying each start position in turn.\<close>
  "containsAt p [] = (p = [])"
| "containsAt p (c # cs) = (startsWith (c # cs) p \<or> containsAt p cs)"

definition regexTestI :: "string \<Rightarrow> string \<Rightarrow> bool" where
  \<comment> \<open>\<open>/p/i.test(s)\<close> for a pattern \<open>p\<close> of lower-case ASCII letters. Below code unit 256
      only the ASCII letters case-fold onto ASCII letters.\<close>
  "regexTestI p s = containsAt p (map toLowerAscii s)"

definition botPatterns :: "string list" where
  "botPatterns =
     [''bot'', ''crawl'', ''spider'', ''scrape'', ''google'', ''bing'', ''yahoo'', ''baidu'',
      ''facebook'', ''twitter'', ''linkedin'', ''curl'', ''wget'', ''postman'']"

definition detectBot :: "string \<Rightarrow> bool" where
  "detectBot ua = list_ex (\<lambda>pattern. regexTestI pattern ua) botPatterns"

definition botHook :: "bool \<Rightarrow> click \<Rightarrow> click" where
  \<comment> \<open>The second \<open>pre("save")\<close> hook.\<close>
  "botHook isNew c =
     (if isNew \<and> truthy (userAgent c) then c\<lparr>isBot := detectBot (the (userAgent c))\<rparr> else c)"

definition hexGroup :: "string \<Rightarrow> bool" where
  "hexGroup p = (1 \<le> length p \<and> length p \<le> 4 \<and>
                 list_all (\<lambda>c. c \<in> set ''0123456789abcdefABCDEF'') p)"

definition ipv6Regex_test :: "string \<Rightarrow> bool" where
  \<comment> \<open>\<open>/^([0-9a-fA-F]{1,4}:){7}[0-9a-fA-F]{1,4}$/\<close>, decided by splitting at the colons.\<close>
  "ipv6Regex_test ip =
     (let parts = split_on (CHR '':'') ip in length parts = 8 \<and> list_all hexGroup parts)"

definition ipValidator :: "string \<Rightarrow> bool" where
  "ipValidator ip = (ipv4Regex_test ip \<or> ipv6Regex_test ip \<or> ip = ''::1'' \<or> ip = ''localhost'')"

definition tooLong :: "nat \<Rightarrow> string option \<Rightarrow> bool" where
  "tooLong n v = (case v of None \<Rightarrow> False | Some s \<Rightarrow> n < length s)"

definition validationErrors :: "click \<Rightarrow> string list" where
  \<comment> \<open>The schema validators that can fail on a document built by the ingestion path, each
      as \<open>path: message\<close>, in schema order.\<close>
  "validationErrors c =
     (if ipAddress c = [] then [''ipAddress: IP address is required'']
      else if \<not> ipValidator (ipAddress c) then [''ipAddress: Invalid IP address format'']
      else []) @
     (if tooLong 1000 (userAgent c) then [''userAgent: User agent string too long''] else []) @
     (if tooLong 500 (referrer c) then [''referrer: Referrer URL too long''] else []) @
     (if device_type (device c) \<in> set [''desktop'', ''mobile'', ''tablet'', ''bot'', ''unknown'']
      then [] else [''device.type: not a valid enum value'']) @
     (if tooLong 50 (browser (device c)) then [''device.browser: longer than the maximum allowed length (50)''] else []) @
     (if tooLong 100 (sessionId c) then [''sessionId: longer than the maximum allowed length (100)''] else [])"

definition saveNew :: "env \<Rightarrow> click list \<Rightarrow> click \<Rightarrow> (error + click) \<times> click list" where
  \<comment> \<open>\<open>click.save()\<close> on a freshly constructed document (\<open>isNew\<close> is true): validation,
      then the two hooks and the creation timestamp, then the insert into the store.
      Returns the outcome and the store afterwards.\<close>
  "saveNew e store c =
     (case validationErrors c of
        v # vs \<Rightarrow> (Inl (Error (''Click validation failed: '' @ joinWith '', '' (v # vs))), store)
      | [] \<Rightarrow>
          (let c1 = fst (geoHook e True c);
               c2 = botHook True c1;
               c3 = c2\<lparr>clickedAt := now e\<rparr>
           in case save_fault e of
                Some msg \<Rightarrow> (Inl (Error msg), store)
              | None \<Rightarrow> (Inr c3, store @ [c3])))"

definition isUniqueClick :: "string option \<Rightarrow> click list \<Rightarrow> objectId \<Rightarrow> string \<Rightarrow> bool" where
  \<comment> \<open>\<open>Click.isUniqueClick\<close>; the first argument is the outcome of the \<open>findOne\<close> call.\<close>
  "isUniqueClick fault store uid ip =
     (case fault of
        Some msg \<Rightarrow> False
      | None \<Rightarrow> (case find (\<lambda>c. urlId c = uid \<and> ipAddress c = ip) store of
                   None \<Rightarrow> True
                 | Some existingClick \<Rightarrow> False))"

section \<open>URL resources and the ingestion pipeline\<close>

record url =
  isActive :: bool
  isExpired :: bool
  originalUrl :: string
  ownerId :: "objectId option"
  clickCount :: nat
  uniqueClicks :: nat
  lastClickedAt :: "date option"

record db =
  clicks :: "click list"
  urls :: "objectId \<rightharpoonup> url"
  userTotalClicks :: "objectId \<rightharpoonup> nat"

record clickData =
  cd_urlId :: objectId
  cd_ipAddress :: "string option"
  cd_headers :: headers
  cd_userAgent :: "string option"
  cd_referrer :: "string option"
  cd_userId :: "objectId option"
  cd_sessionId :: "string option"
  cd_device :: "deviceInfo option"

record liveCounters =
  lc_totalClicks :: nat
  lc_uniqueClicks :: nat
  lc_isUnique :: bool

record recordResult =
  rr_click :: click
  redirectUrl :: string
  analytics :: liveCounters

definition updateUrlStats ::
  "env \<Rightarrow> (objectId \<rightharpoonup> url) \<Rightarrow> objectId \<Rightarrow> bool \<Rightarrow> (objectId \<rightharpoonup> url)" where
  \<comment> \<open>\<open>_updateUrlStats\<close>: one \<open>findByIdAndUpdate\<close>; a rejection is caught and logged.\<close>
  "updateUrlStats e us uid isUniq =
     (case urlUpdate_fault e of
        Some msg \<Rightarrow> us
      | None \<Rightarrow>
          (case us uid of
             None \<Rightarrow> us
           | Some u \<Rightarrow>
               us(uid \<mapsto> u\<lparr> clickCount := clickCount u + 1,
                            uniqueClicks := (if isUniq then uniqueClicks u + 1 else uniqueClicks u),
                            lastClickedAt := Some (now e) \<rparr>)))"

definition updateUserStats ::
  "env \<Rightarrow> (objectId \<rightharpoonup> nat) \<Rightarrow> objectId \<Rightarrow> nat \<Rightarrow> (objectId \<rightharpoonup> nat)" where
  \<comment> \<open>\<open>_updateUserStats\<close>; a rejection is caught and logged.\<close>
  "updateUserStats e us uid n =
     (case userUpdate_fault e of
        Some msg \<Rightarrow> us
      | None \<Rightarrow> (case us uid of None \<Rightarrow> us | Some t \<Rightarrow> us(uid \<mapsto> t + n)))"

definition newClick :: "clickData \<Rightarrow> string \<Rightarrow> bool \<Rightarrow> click" where
  \<comment> \<open>\<open>new Click({\<dots>})\<close> as built by \<open>recordClick\<close>, schema defaults filled in.\<close>
  "newClick cd ip isUniq =
     \<lparr> urlId = cd_urlId cd, userId = cd_userId cd, ipAddress = ip,
       userAgent = cd_userAgent cd, referrer = cd_referrer cd, location = emptyLocation,
       device = (case cd_device cd of
                   None \<Rightarrow> \<lparr> device_type = ''unknown'', browser = None \<rparr>
                 | Some d \<Rightarrow> d),
       isBot = False, isUnique = isUniq, sessionId = cd_sessionId cd, loadTime = None,
       clickedAt = 0 \<rparr>"

definition failed :: "string \<Rightarrow> error" where
  \<comment> \<open>The outer \<open>catch\<close> of \<open>recordClick\<close>.\<close>
  "failed msg = Error (''Click recording failed: '' @ msg)"

definition recordClick :: "env \<Rightarrow> db \<Rightarrow> clickData \<Rightarrow> (error + recordResult) \<times> db" where
  \<comment> \<open>Returns the outcome (\<^term>\<open>Inl\<close> for a thrown error) and the database afterwards.
      The campaign extraction between construction and save cannot throw and fills only
      the \<open>campaign\<close> field, which is not modelled.\<close>
  "recordClick e st cd =
     (let ip = normalizeIpAddress (cd_ipAddress cd) (cd_headers cd)
      in case findById_fault e of
           Some msg \<Rightarrow> (Inl (failed msg), st)
         | None \<Rightarrow>
             (case urls st (cd_urlId cd) of
                None \<Rightarrow> (Inl (failed ''URL not found or inactive''), st)
              | Some u \<Rightarrow>
                  if \<not> isActive u then (Inl (failed ''URL not found or inactive''), st)
                  else if isExpired u then (Inl (failed ''URL has expired''), st)
                  else
                    (let isUniq = isUniqueClick (findOne_fault e) (clicks st) (cd_urlId cd) ip
                     in case saveNew e (clicks st) (newClick cd ip isUniq) of
                          (Inl (Error msg), store') \<Rightarrow> (Inl (failed msg), st\<lparr>clicks := store'\<rparr>)
                        | (Inr saved, store') \<Rightarrow>
                            (let st1 = st\<lparr>clicks := store'\<rparr>;
                                 st2 = st1\<lparr>urls := updateUrlStats e (urls st1) (cd_urlId cd) isUniq\<rparr>;
                                 st3 = (case ownerId u of
                                          None \<Rightarrow> st2
                                        | Some owner \<Rightarrow>
                                            st2\<lparr>userTotalClicks :=
                                                  updateUserStats e (userTotalClicks st2) owner 1\<rparr>)
                             in (Inr \<lparr> rr_click = saved, redirectUrl = originalUrl u,
                                       analytics =
                                         \<lparr> lc_totalClicks = clickCount u + 1,
                                           lc_uniqueClicks = uniqueClicks u + (if isUniq then 1 else 0),
                                           lc_isUnique = isUniq \<rparr> \<rparr>,
                                 st3)))))"


section \<open>Aggregation queries (click model statics)\<close>

record analyticsOptions =
  opt_startDate :: "date option"
  opt_endDate :: "date option"
  opt_excludeBots :: "bool option"

definition defaultOptions :: analyticsOptions where
  \<comment> \<open>\<open>options = {}\<close>: every option left to its default.\<close>
  "defaultOptions = \<lparr> opt_startDate = None, opt_endDate = None, opt_excludeBots = None \<rparr>"

definition excludeBotsOf :: "analyticsOptions \<Rightarrow> bool" where
  \<comment> \<open>The destructuring default \<open>excludeBots = true\<close>.\<close>
  "excludeBotsOf opts = (case opt_excludeBots opts of None \<Rightarrow> True | Some b \<Rightarrow> b)"

definition startDateOf :: "date \<Rightarrow> analyticsOptions \<Rightarrow> date" where
  "startDateOf nowMs opts =
     (case opt_startDate opts of None \<Rightarrow> nowMs - 30 * 24 * 60 * 60 * 1000 | Some d \<Rightarrow> d)"

definition endDateOf :: "date \<Rightarrow> analyticsOptions \<Rightarrow> date" where
  "endDateOf nowMs opts = (case opt_endDate opts of None \<Rightarrow> nowMs | Some d \<Rightarrow> d)"

definition matchStage :: "objectId \<Rightarrow> date \<Rightarrow> date \<Rightarrow> bool \<Rightarrow> click \<Rightarrow> bool" where
  \<comment> \<open>The \<open>$match\<close> stage of \<open>getUrlAnalytics\<close>; \<open>isBot: {$ne: true}\<close> is added only when
      bots are excluded.\<close>
  "matchStage uid startDate endDate excludeBots c =
     (urlId c = uid \<and> startDate \<le> clickedAt c \<and> clickedAt c \<le> endDate \<and>
      (if excludeBots then \<not> isBot c else True))"

fun groupBy :: "('a \<Rightarrow> 'k) \<Rightarrow> 'a list \<Rightarrow> ('k \<times> 'a list) list" where
  \<comment> \<open>\<open>$group\<close>: the documents of each key, keys in order of first appearance.\<close>
  "groupBy key [] = []"
| "groupBy key (x # xs) =
     (key x, x # filter (\<lambda>y. key y = key x) xs) # groupBy key (filter (\<lambda>y. key y \<noteq> key x) xs)"

definition countWhere :: "('a \<Rightarrow> bool) \<Rightarrow> 'a list \<Rightarrow> nat" where
  "countWhere P xs = length (filter P xs)"

definition distinctCount :: "'a list \<Rightarrow> nat" where
  \<comment> \<open>\<open>$size\<close> of an \<open>$addToSet\<close> accumulator.\<close>
  "distinctCount xs = length (remdups xs)"

definition present :: "'a option list \<Rightarrow> 'a list" where
  \<comment> \<open>Missing values are not accumulated.\<close>
  "present vs = List.map_filter (\<lambda>v. v) vs"

definition avg :: "rat option list \<Rightarrow> rat option" where
  \<comment> \<open>\<open>$avg\<close>: the mean of the numeric values, \<open>null\<close> when there is none.\<close>
  "avg vs = (let xs = present vs
             in if xs = [] then None else Some (sum_list xs / of_nat (length xs)))"

record overviewRow =
  totalClicks :: nat
  ov_uniqueClicks :: nat
  botClicks :: nat
  averageLoadTime :: "rat option"

record 'k countRow =
  row_id :: 'k
  row_count :: nat

record countryRow =
  cr_id :: string
  cr_count :: nat
  cr_countryName :: "string option"

record hourRow =
  hr_id :: int
  hr_count :: nat
  uniqueUsersCount :: nat
  uniqueIPsCount :: nat

record dayRow =
  dr_id :: int
  dr_count :: nat
  uniqueVisitorsCount :: nat
  uniqueRegisteredUsersCount :: nat
  uniqueCountriesCount :: nat
  uniqueDeviceTypesCount :: nat
  dr_botClicks :: nat
  humanClicks :: nat

definition overviewFacet :: "click list \<Rightarrow> overviewRow list" where
  \<comment> \<open>\<open>$group\<close> with \<open>_id: null\<close>: one row for a non-empty input, no row for an empty one.\<close>
  "overviewFacet sel =
     (if sel = [] then []
      else [\<lparr> totalClicks = length sel,
              ov_uniqueClicks = countWhere isUnique sel,
              botClicks = countWhere isBot sel,
              averageLoadTime = avg (map loadTime sel) \<rparr>])"

definition countRows :: "('k \<times> 'a list) list \<Rightarrow> 'k countRow list" where
  "countRows groups = map (\<lambda>(k, g). \<lparr> row_id = k, row_count = length g \<rparr>) groups"

definition sortByCountDesc :: "'k countRow list \<Rightarrow> 'k countRow list" where
  \<comment> \<open>\<open>$sort: {count: -1}\<close>; equal counts keep their grouping order.\<close>
  "sortByCountDesc rows = sort_key (\<lambda>r. - int (row_count r)) rows"

definition byCountryFacet :: "click list \<Rightarrow> countryRow list" where
  "byCountryFacet sel =
     take 10
       (sort_key (\<lambda>r. - int (cr_count r))
          (map (\<lambda>(k, g). \<lparr> cr_id = k, cr_count = length g,
                           cr_countryName = (case g of [] \<Rightarrow> None
                                             | (_, c) # _ \<Rightarrow> countryName (location c)) \<rparr>)
             (groupBy fst
                (List.map_filter (\<lambda>c. map_option (\<lambda>k. (k, c)) (country (location c))) sel))))"

definition byDeviceFacet :: "click list \<Rightarrow> string countRow list" where
  "byDeviceFacet sel = sortByCountDesc (countRows (groupBy (\<lambda>c. device_type (device c)) sel))"

definition byBrowserFacet :: "click list \<Rightarrow> string countRow list" where
  "byBrowserFacet sel =
     take 10 (sortByCountDesc (countRows (groupBy (\<lambda>b. b)
       (filter (\<lambda>b. b \<noteq> ''Unknown'') (present (map (\<lambda>c. browser (device c)) sel))))))"

definition byReferrerFacet :: "click list \<Rightarrow> string countRow list" where
  "byReferrerFacet sel =
     take 10 (sortByCountDesc (countRows (groupBy (\<lambda>r. r) (present (map referrer sel)))))"

definition hourOf :: "date \<Rightarrow> int" where
  \<comment> \<open>\<open>$hour\<close>: the hour of the day in UTC.\<close>
  "hourOf t = (t div 3600000) mod 24"

definition dayOf :: "date \<Rightarrow> int" where
  \<comment> \<open>The calendar day in UTC, as a day number; the source's \<open>{year, month, day}\<close> key is
      a one-to-one, order-preserving image of it.\<close>
  "dayOf t = t div 86400000"

definition clicksByHourFacet :: "click list \<Rightarrow> hourRow list" where
  "clicksByHourFacet sel =
     sort_key hr_id
       (map (\<lambda>(h, g). \<lparr> hr_id = h, hr_count = length g,
                        uniqueUsersCount = distinctCount (map userId g),
                        uniqueIPsCount = distinctCount (map ipAddress g) \<rparr>)
          (groupBy (\<lambda>c. hourOf (clickedAt c)) sel))"

definition visitorKey :: "click \<Rightarrow> objectId + string" where
  "visitorKey c = (case userId c of Some u \<Rightarrow> Inl u | None \<Rightarrow> Inr (ipAddress c))"

definition clicksByDayFacet :: "click list \<Rightarrow> dayRow list" where
  "clicksByDayFacet sel =
     sort_key dr_id
       (map (\<lambda>(d, g). \<lparr> dr_id = d, dr_count = length g,
                        uniqueVisitorsCount = distinctCount (map visitorKey g),
                        uniqueRegisteredUsersCount = distinctCount (present (map userId g)),
                        uniqueCountriesCount =
                          distinctCount (present (map (\<lambda>c. country (location c)) g)),
                        uniqueDeviceTypesCount =
                          distinctCount (map (\<lambda>c. device_type (device c)) g),
                        dr_botClicks = countWhere isBot g,
                        humanClicks = length g - countWhere isBot g \<rparr>)
          (groupBy (\<lambda>c. dayOf (clickedAt c)) sel))"

record urlAnalyticsReport =
  overview :: overviewRow
  byCountry :: "countryRow list"
  byDevice :: "string countRow list"
  byBrowser :: "string countRow list"
  byReferrer :: "string countRow list"
  clicksByHour :: "hourRow list"
  clicksByDay :: "dayRow list"
  dateRange :: "date \<times> date"

definition zeroOverview :: overviewRow where
  "zeroOverview = \<lparr> totalClicks = 0, ov_uniqueClicks = 0, botClicks = 0,
                     averageLoadTime = Some 0 \<rparr>"

definition getUrlAnalytics ::
  "date \<Rightarrow> string option \<Rightarrow> click list \<Rightarrow> objectId \<Rightarrow> analyticsOptions \<Rightarrow>
   error + urlAnalyticsReport" where
  \<comment> \<open>\<open>Click.getUrlAnalytics\<close>; the second argument is the outcome of the \<open>aggregate\<close> call.\<close>
  "getUrlAnalytics nowMs fault store uid opts =
     (let startDate = startDateOf nowMs opts;
          endDate = endDateOf nowMs opts;
          excludeBots = excludeBotsOf opts
      in case fault of
           Some msg \<Rightarrow> Inl (Error (''Click analytics generation failed: '' @ msg))
         | None \<Rightarrow>
             (let sel = filter (matchStage uid startDate endDate excludeBots) store
              in Inr \<lparr> overview = (case overviewFacet sel of [] \<Rightarrow> zeroOverview | r # _ \<Rightarrow> r),
                       byCountry = byCountryFacet sel,
                       byDevice = byDeviceFacet sel,
                       byBrowser = byBrowserFacet sel,
                       byReferrer = byReferrerFacet sel,
                       clicksByHour = clicksByHourFacet sel,
                       clicksByDay = clicksByDayFacet sel,
                       dateRange = (startDate, endDate) \<rparr>))"

record realTimeStats =
  recentClicks :: nat
  activeUrls :: nat
  activeCountries :: nat
  avgClicksPerMinute :: rat

definition realTimeMatch :: "date \<Rightarrow> click \<Rightarrow> bool" where
  "realTimeMatch timeThreshold c = (timeThreshold \<le> clickedAt c \<and> \<not> isBot c)"

definition realTimeAggregate ::
  "string option \<Rightarrow> click list \<Rightarrow> date \<Rightarrow> int \<Rightarrow> error + realTimeStats list" where
  \<comment> \<open>The three-stage pipeline of \<open>getRealTimeStats\<close>: no row for an empty window; for a
      non-empty one the \<open>$divide\<close> of the projection fails on a zero divisor.\<close>
  "realTimeAggregate fault store timeThreshold minutes =
     (case fault of
        Some msg \<Rightarrow> Inl (Error msg)
      | None \<Rightarrow>
          (let sel = filter (realTimeMatch timeThreshold) store
           in if sel = [] then Inr []
              else if minutes = 0 then Inl (Error ''can't $divide by zero'')
              else Inr [\<lparr> recentClicks = length sel,
                          activeUrls = distinctCount (map urlId sel),
                          activeCountries =
                            distinctCount (present (map (\<lambda>c. country (location c)) sel)),
                          avgClicksPerMinute = of_nat (length sel) / of_int minutes \<rparr>]))"

definition zeroStats :: realTimeStats where
  "zeroStats = \<lparr> recentClicks = 0, activeUrls = 0, activeCountries = 0,
                  avgClicksPerMinute = 0 \<rparr>"

definition getRealTimeStats ::
  "date \<Rightarrow> string option \<Rightarrow> click list \<Rightarrow> int \<Rightarrow> error + realTimeStats" where
  \<comment> \<open>\<open>Click.getRealTimeStats(minutes)\<close>.\<close>
  "getRealTimeStats nowMs fault store minutes =
     (let timeThreshold = nowMs - minutes * 60 * 1000
      in case realTimeAggregate fault store timeThreshold minutes of
           Inl (Error msg) \<Rightarrow> Inl (Error (''Real-time statistics generation failed: '' @ msg))
         | Inr [] \<Rightarrow> Inr zeroStats
         | Inr (stats # _) \<Rightarrow> Inr stats)"

section \<open>Retention\<close>

definition olderThan :: "date \<Rightarrow> click \<Rightarrow> bool" where
  \<comment> \<open>The filter \<open>{clickedAt: {$lt: cutoffDate}}\<close>.\<close>
  "olderThan cutoffDate c = (clickedAt c < cutoffDate)"

definition cutoffOf :: "date \<Rightarrow> int \<Rightarrow> date" where
  "cutoffOf nowMs retentionDays = nowMs - retentionDays * 24 * 60 * 60 * 1000"

definition cleanupOldClicks ::
  "date \<Rightarrow> string option \<Rightarrow> click list \<Rightarrow> int \<Rightarrow> (error + nat \<times> date \<times> int) \<times> click list" where
  \<comment> \<open>\<open>Click.cleanupOldClicks(retentionDays)\<close>: a single unbounded \<open>deleteMany\<close>. Returns
      \<open>{deletedCount, cutoffDate, retentionDays}\<close> and the store afterwards.\<close>
  "cleanupOldClicks nowMs fault store retentionDays =
     (let cutoffDate = cutoffOf nowMs retentionDays
      in case fault of
           Some msg \<Rightarrow> (Inl (Error (''Click data cleanup failed: '' @ msg)), store)
         | None \<Rightarrow> (Inr (countWhere (olderThan cutoffDate) store, cutoffDate, retentionDays),
                    filter (\<lambda>c. \<not> olderThan cutoffDate c) store))"

datatype limitOption = LimitForwarded | LimitDropped

fun showNat :: "nat \<Rightarrow> string" where
  \<comment> \<open>A number in decimal, as it appears in a message.\<close>
  "showNat n =
     (if n < 10 then [''0123456789'' ! n]
      else showNat (n div 10) @ [''0123456789'' ! (n mod 10)])"

declare showNat.simps [simp del]

fun deleteFirst :: "('a \<Rightarrow> bool) \<Rightarrow> 'a list \<Rightarrow> 'a list" where
  \<comment> \<open>The store without the first document that matches.\<close>
  "deleteFirst P [] = []"
| "deleteFirst P (c # cs) = (if P c then cs else c # deleteFirst P cs)"

definition deleteMany ::
  "limitOption \<Rightarrow> (click \<Rightarrow> bool) \<Rightarrow> nat \<Rightarrow> click list \<Rightarrow> error + click list \<times> nat" where
  \<comment> \<open>\<open>Click.deleteMany(filter, {limit})\<close> as \<open>cleanupAnalyticsData\<close> calls it. Mongoose
      hands the options to the driver's \<open>deleteMany\<close>. A driver that forwards \<open>limit\<close>
      puts it into the delete statement, where the server takes 0 (every match) or 1 (the
      first match) and rejects any other value; a driver that drops the option deletes every
      match. No store deletes ``at most \<open>limit\<close>'' documents for a limit above 1. Returns
      the store afterwards and \<open>deletedCount\<close>.\<close>
  "deleteMany handling P limit store =
     (let every = Inr (filter (\<lambda>c. \<not> P c) store, countWhere P store)
      in case handling of
           LimitDropped \<Rightarrow> every
         | LimitForwarded \<Rightarrow>
             if limit = 0 then every
             else if limit = 1
             then Inr (deleteFirst P store, if list_ex P store then 1 else 0)
             else Inl (Error (''The limit field in delete objects must be 0 or 1. Got '' @
                              showNat limit)))"

datatype storeCall = DeleteBatch nat | Pause nat

record cleanupOptions =
  opt_retentionDays :: "int option"
  opt_batchSize :: "nat option"
  opt_dryRun :: "bool option"

record cleanupEnv =
  cl_now :: date
  delete_limit :: limitOption
  count_fault :: "string option"
  delete_fault :: "nat \<Rightarrow> string option"

datatype cleanupReport =
    DryRunReport nat date int
  | CleanupReport nat date int date

partial_function (option) deleteLoop ::
  "limitOption \<Rightarrow> (nat \<Rightarrow> string option) \<Rightarrow> date \<Rightarrow> nat \<Rightarrow> nat \<Rightarrow> click list \<Rightarrow> nat \<Rightarrow>
   storeCall list \<Rightarrow> ((error + nat) \<times> click list \<times> storeCall list) option" where
  \<comment> \<open>The \<open>while (hasMore)\<close> loop. \<open>k\<close> numbers the \<open>deleteMany\<close> calls, so that each may
      fail on its own (a lost connection, say); the last argument records the deletions and
      the 100 ms pauses in the order they happen. \<^term>\<open>None\<close> is a loop that never ends.\<close>
  "deleteLoop handling dfault cutoffDate batchSize k store totalDeleted trace =
     (case dfault k of
        Some msg \<Rightarrow> Some (Inl (Error msg), store, trace)
      | None \<Rightarrow>
          (case deleteMany handling (olderThan cutoffDate) batchSize store of
             Inl err \<Rightarrow> Some (Inl err, store, trace)
           | Inr (store', deletedCount) \<Rightarrow>
               if deletedCount = batchSize
               then deleteLoop handling dfault cutoffDate batchSize (k + 1) store'
                      (totalDeleted + deletedCount) (trace @ [DeleteBatch deletedCount, Pause 100])
               else Some (Inr (totalDeleted + deletedCount), store',
                          trace @ [DeleteBatch deletedCount])))"

declare deleteLoop.simps [code]

definition retentionDaysOf :: "cleanupOptions \<Rightarrow> int" where
  "retentionDaysOf opts = (case opt_retentionDays opts of None \<Rightarrow> 365 | Some d \<Rightarrow> d)"

definition batchSizeOf :: "cleanupOptions \<Rightarrow> nat" where
  "batchSizeOf opts = (case opt_batchSize opts of None \<Rightarrow> 1000 | Some b \<Rightarrow> b)"

definition dryRunOf :: "cleanupOptions \<Rightarrow> bool" where
  "dryRunOf opts = (case opt_dryRun opts of None \<Rightarrow> False | Some b \<Rightarrow> b)"

definition cleanupAnalyticsData ::
  "cleanupEnv \<Rightarrow> db \<Rightarrow> cleanupOptions \<Rightarrow>
   ((error + cleanupReport) \<times> db \<times> storeCall list) option" where
  \<comment> \<open>Returns the outcome, the database afterwards and the store calls made by the loop.\<close>
  "cleanupAnalyticsData ce st opts =
     (let retentionDays = retentionDaysOf opts;
          batchSize = batchSizeOf opts;
          dryRun = dryRunOf opts;
          cutoffDate = cutoffOf (cl_now ce) retentionDays
      in if dryRun then
           (case count_fault ce of
              Some msg \<Rightarrow> Some (Inl (Error (''Analytics data cleanup failed: '' @ msg)), st, [])
            | None \<Rightarrow>
                Some (Inr (DryRunReport (countWhere (olderThan cutoffDate) (clicks st))
                             cutoffDate retentionDays), st, []))
         else
           (case deleteLoop (delete_limit ce) (delete_fault ce) cutoffDate batchSize 0 (clicks st) 0 [] of
              None \<Rightarrow> None
            | Some (Inl (Error msg), store', trace) \<Rightarrow>
                Some (Inl (Error (''Analytics data cleanup failed: '' @ msg)),
                      st\<lparr>clicks := store'\<rparr>, trace)
            | Some (Inr totalDeleted, store', trace) \<Rightarrow>
                Some (Inr (CleanupReport totalDeleted cutoffDate retentionDays (cl_now ce)),
                      st\<lparr>clicks := store'\<rparr>, trace)))"

fun wellPaced :: "nat \<Rightarrow> storeCall list \<Rightarrow> bool" where
  \<comment> \<open>One or more deletions of at most \<open>b\<close> documents each, with exactly one pause between
      two successive deletions and none after the last.\<close>
  "wellPaced b [DeleteBatch n] = (n \<le> b)"
| "wellPaced b (DeleteBatch n # Pause ms # rest) = (n \<le> b \<and> wellPaced b rest)"
| "wellPaced b calls = False"

fun deletedIn :: "storeCall list \<Rightarrow> nat" where
  \<comment> \<open>The number of documents removed by the deletions of a trace.\<close>
  "deletedIn [] = 0"
| "deletedIn (DeleteBatch n # rest) = n + deletedIn rest"
| "deletedIn (Pause ms # rest) = deletedIn rest"

section \<open>Runs of ingestions, and sample inputs\<close>




definition clickOf :: "env \<Rightarrow> db \<Rightarrow> clickData \<Rightarrow> click" where
  \<comment> \<open>The document \<open>recordClick\<close> constructs and hands to \<open>save\<close>.\<close>
  "clickOf e st cd =
     (let ip = normalizeIpAddress (cd_ipAddress cd) (cd_headers cd)
      in newClick cd ip (isUniqueClick (findOne_fault e) (clicks st) (cd_urlId cd) ip))"

definition sampleEnv :: env where
  "sampleEnv =
     \<lparr> enableGeolocation = True, geoip_lookup = (\<lambda>ip. LookupNull), now = 1000,
       findById_fault = None, findOne_fault = None, save_fault = None,
       urlUpdate_fault = None, userUpdate_fault = None \<rparr>"

definition sampleUrl :: url where
  "sampleUrl =
     \<lparr> isActive = True, isExpired = False, originalUrl = ''https://example.com/'',
       ownerId = None, clickCount = 0, uniqueClicks = 0, lastClickedAt = None \<rparr>"

definition sampleDb :: db where
  "sampleDb = \<lparr> clicks = [], urls = [1 \<mapsto> sampleUrl], userTotalClicks = Map.empty \<rparr>"

definition sampleClick :: clickData where
  "sampleClick =
     \<lparr> cd_urlId = 1, cd_ipAddress = Some ''203.0.113.5'', cd_headers = Map.empty,
       cd_userAgent = Some ''Mozilla/5.0 (Windows NT 10.0) Chrome/115.0'',
       cd_referrer = None, cd_userId = None, cd_sessionId = None, cd_device = None \<rparr>"

datatype coreOp = Ingest env clickData | Purge cleanupEnv cleanupOptions

fun applyOps :: "coreOp list \<Rightarrow> db \<Rightarrow> db option" where
  \<comment> \<open>State-changing operations performed one after another; \<^term>\<open>None\<close> when a purge
      never ends. The queries change nothing and do not appear.\<close>
  "applyOps [] st = Some st"
| "applyOps (Ingest e cd # ops) st = applyOps ops (snd (recordClick e st cd))"
| "applyOps (Purge ce opts # ops) st =
     (case cleanupAnalyticsData ce st opts of
        None \<Rightarrow> None
      | Some (outcome, st', calls) \<Rightarrow> applyOps ops st')"

definition sampleStore :: "click list" where
  \<comment> \<open>Four stored events, created at 10, 20, 5000 and 30 ms.\<close>
  "sampleStore =
     map (\<lambda>t. (newClick sampleClick ''203.0.113.5'' False)\<lparr>clickedAt := t\<rparr>) [10, 20, 5000, 30]"

definition sampleCleanupEnv :: cleanupEnv where
  "sampleCleanupEnv =
     \<lparr> cl_now = 1000, delete_limit = LimitForwarded, count_fault = None,
       delete_fault = (\<lambda>k. None) \<rparr>"

definition sampleCleanup :: "bool \<Rightarrow> cleanupOptions" where
  \<comment> \<open>Keep nothing older than now, one deletion per batch.\<close>
  "sampleCleanup dry =
     \<lparr> opt_retentionDays = Some 0, opt_batchSize = Some 1, opt_dryRun = Some dry \<rparr>"

section \<open>Properties of the IP normaliser\<close>

lemma split_on_nonempty: "split_on sep s \<noteq> []"
  by (induction s) (auto split: list.splits)

lemma split_on_hd:
  "split_on sep s = p # ps \<Longrightarrow> p \<noteq> [] \<Longrightarrow> s \<noteq> [] \<and> hd s = hd p"
  by (cases s) (auto split: if_splits list.splits)

lemma split_on_join: "joinWith [sep] (split_on sep s) = s"
proof (induction s)
  case Nil
  show ?case by simp
next
  case (Cons c cs)
  obtain p ps where sp: "split_on sep cs = p # ps"
    using split_on_nonempty [of sep cs] by (cases "split_on sep cs") auto
  show ?case
  proof (cases "c = sep")
    case True
    with Cons sp show ?thesis by simp
  next
    case False
    with Cons sp show ?thesis by (cases ps) auto
  qed
qed

lemma parseInt10_digits:
  assumes "list_all isDigit p" and "p \<noteq> []"
  shows "parseInt10 p = Some (foldl (\<lambda>acc c. 10 * acc + digitVal c) 0 p)"
proof -
  from assms(1) have tw: "takeWhile isDigit p = p" by (simp add: list_all_iff)
  show ?thesis unfolding parseInt10_def Let_def tw using assms(2) by simp
qed

lemma valid_dotted_quad:
  assumes "isValidIPv4 s"
  shows "\<exists>a b c d. s = a @ ''.'' @ b @ ''.'' @ c @ ''.'' @ d \<and>
                   octet a \<and> octet b \<and> octet c \<and> octet d"
proof -
  from assms have r: "ipv4Regex_test s"
    and v: "list_all (\<lambda>part. case parseInt10 part of None \<Rightarrow> False | Some num \<Rightarrow> 0 \<le> num \<and> num \<le> 255)
             (split_on (CHR ''.'') s)"
    by (auto simp: isValidIPv4_def split: if_splits)
  from r have len: "length (split_on (CHR ''.'') s) = 4" by (simp add: ipv4Regex_test_def Let_def)
  then obtain a b c d where sp: "split_on (CHR ''.'') s = [a, b, c, d]"
    by (auto simp: length_Suc_conv numeral_eq_Suc)
  have "octet p" if "p \<in> set [a, b, c, d]" for p
  proof -
    from that r sp have g: "1 \<le> length p" "length p \<le> 3" "list_all isDigit p"
      by (auto simp: ipv4Regex_test_def Let_def)
    then have "parseInt10 p = Some (foldl (\<lambda>acc c. 10 * acc + digitVal c) 0 p)"
      by (intro parseInt10_digits) auto
    moreover from that v sp have "case parseInt10 p of None \<Rightarrow> False | Some num \<Rightarrow> 0 \<le> num \<and> num \<le> 255"
      by auto
    ultimately show ?thesis using g by (simp add: octet_def)
  qed
  then have "octet a" "octet b" "octet c" "octet d" by simp_all
  moreover have "s = a @ ''.'' @ b @ ''.'' @ c @ ''.'' @ d"
    using split_on_join [of "CHR ''.''" s] sp by simp
  ultimately show ?thesis by blast
qed

lemma loopback_valid: "isValidIPv4 ''127.0.0.1''"
  by (simp add: isValidIPv4_def ipv4Regex_test_def isDigit_def parseInt10_def digitVal_def)

lemma firstValid_valid: "isValidIPv4 (firstValid cs)"
  by (induction cs) (simp_all add: loopback_valid Let_def)

lemma valid_starts_with_digit:
  assumes "isValidIPv4 a"
  shows "a \<noteq> [] \<and> isDigit (hd a)"
proof -
  from assms have r: "ipv4Regex_test a"
    by (auto simp: isValidIPv4_def split: if_splits)
  obtain p ps where sp: "split_on (CHR ''.'') a = p # ps"
    using split_on_nonempty [of "CHR ''.''" a] by (cases "split_on (CHR ''.'') a") auto
  from r sp have p: "p \<noteq> []" "list_all isDigit p"
    by (auto simp: ipv4Regex_test_def Let_def)
  from split_on_hd [OF sp p(1)] have "a \<noteq> []" "hd a = hd p" by auto
  moreover from p have "isDigit (hd p)" by (cases p) auto
  ultimately show ?thesis by simp
qed

lemma normalizeCandidate_valid:
  assumes "isValidIPv4 a"
  shows "normalizeCandidate a = a"
proof -
  from valid_starts_with_digit [OF assms] obtain c cs where a: "a = c # cs" and d: "isDigit c"
    by (cases a) auto
  from d have "c \<noteq> CHR '':''" "c \<noteq> CHR ''l''" by (auto simp: isDigit_def)
  with a show ?thesis
    by (auto simp: normalizeCandidate_def startsWith_def Let_def)
qed

lemma firstValid_fallback:
  "\<forall>c \<in> set cs. \<not> isValidIPv4 (normalizeCandidate c) \<Longrightarrow> firstValid cs = ''127.0.0.1''"
  by (induction cs) (simp_all add: Let_def)

lemma empty_not_valid: "\<not> isValidIPv4 (normalizeCandidate [])"
  by (simp add: normalizeCandidate_def startsWith_def isValidIPv4_def ipv4Regex_test_def)

lemma truthy_simps: "truthy None = False" "truthy (Some a) = (a \<noteq> [])"
  by (simp_all add: truthy_def)

lemma firstValid_first_accepted:
  assumes "i < length srcs" and "srcs ! i = Some x" and "isValidIPv4 (normalizeCandidate x)"
    and "\<forall>j<i. case srcs ! j of None \<Rightarrow> True
                           | Some y \<Rightarrow> \<not> isValidIPv4 (normalizeCandidate y)"
  shows "firstValid (map the (filter truthy srcs)) = normalizeCandidate x"
  using assms
proof (induction srcs arbitrary: i)
  case Nil
  then show ?case by simp
next
  case (Cons s srcs)
  show ?case
  proof (cases i)
    case 0
    with Cons.prems(2) have s: "s = Some x" by simp
    from Cons.prems(3) empty_not_valid have "x \<noteq> []" by auto
    with s Cons.prems(3) show ?thesis by (simp add: truthy_simps Let_def)
  next
    case (Suc i')
    from Cons.prems(4) Suc
    have h: "case s of None \<Rightarrow> True | Some y \<Rightarrow> \<not> isValidIPv4 (normalizeCandidate y)"
      by (auto dest: spec [of _ 0])
    have r: "\<forall>j<i'. case srcs ! j of None \<Rightarrow> True
                              | Some y \<Rightarrow> \<not> isValidIPv4 (normalizeCandidate y)"
    proof (intro allI impI)
      fix j assume "j < i'"
      with Suc have "Suc j < i" by simp
      with Cons.prems(4) show "case srcs ! j of None \<Rightarrow> True
                              | Some y \<Rightarrow> \<not> isValidIPv4 (normalizeCandidate y)"
        by (auto dest: spec [of _ "Suc j"])
    qed
    from Cons.prems(1,2) Suc have "i' < length srcs" "srcs ! i' = Some x" by simp_all
    from Cons.IH [OF this Cons.prems(3) r]
    have "firstValid (map the (filter truthy srcs)) = normalizeCandidate x" .
    with h show ?thesis by (cases s) (simp_all add: truthy_simps Let_def)
  qed
qed

lemma firstValid_none_accepted:
  assumes "\<forall>j<length srcs. case srcs ! j of None \<Rightarrow> True
                                     | Some y \<Rightarrow> \<not> isValidIPv4 (normalizeCandidate y)"
  shows "firstValid (map the (filter truthy srcs)) = ''127.0.0.1''"
proof (rule firstValid_fallback, rule ballI)
  fix c assume "c \<in> set (map the (filter truthy srcs))"
  then obtain s where s: "s \<in> set srcs" "truthy s" "c = the s" by auto
  from s(2,3) have sc: "s = Some c" by (cases s) (simp_all add: truthy_def)
  from s(1) obtain j where "j < length srcs" "srcs ! j = s" by (auto simp: in_set_conv_nth)
  with assms sc show "\<not> isValidIPv4 (normalizeCandidate c)" by auto
qed

lemma extract_first_public:
  assumes "ff \<noteq> []" and "k < length (map trim (split_on (CHR '','') ff))"
    and "isPublicIP (map trim (split_on (CHR '','') ff) ! k)"
    and "\<forall>j<k. \<not> isPublicIP (map trim (split_on (CHR '','') ff) ! j)"
  shows "extractFromForwardedFor (Some ff) = Some (map trim (split_on (CHR '','') ff) ! k)"
proof -
  let ?ips = "map trim (split_on (CHR '','') ff)"
  from assms(2-4) have "find isPublicIP ?ips = Some (?ips ! k)"
    unfolding find_Some_iff by blast
  with assms(1) show ?thesis by (simp add: extractFromForwardedFor_def Let_def)
qed

lemma extract_no_public:
  assumes "ff \<noteq> []" and "list_all (\<lambda>a. \<not> isPublicIP a) (map trim (split_on (CHR '','') ff))"
  shows "extractFromForwardedFor (Some ff) =
           (if trim (hd (split_on (CHR '','') ff)) = [] then None
            else Some (trim (hd (split_on (CHR '','') ff))))"
proof -
  let ?ips = "map trim (split_on (CHR '','') ff)"
  from assms(2) have "find isPublicIP ?ips = None"
    unfolding find_None_iff by (simp add: list_all_iff)
  moreover obtain p ps where "split_on (CHR '','') ff = p # ps"
    using split_on_nonempty [of "CHR '',''" ff] by (cases "split_on (CHR '','') ff") auto
  ultimately show ?thesis using assms(1) by (simp add: extractFromForwardedFor_def Let_def)
qed

text \<open>
  C5. The normaliser is a total function to strings (nothing in it can throw on a string
  or absent candidate and string-valued headers). Its result always passes the validator
  and is a dotted quad of four decimal groups of one to three digits, each at most 255.
  The candidates are, in this order, the direct argument and the headers
  \<open>cf-connecting-ip\<close>, \<open>x-real-ip\<close>, \<open>x-forwarded-for\<close> (its first public entry, or else
  its first entry), \<open>x-client-ip\<close>, \<open>x-forwarded\<close>, \<open>forwarded-for\<close> and \<open>forwarded\<close>.
  The first candidate that validates decides the result: a candidate of any source that is
  already a valid IPv4 address is returned unchanged, \<open>::1\<close> and \<open>localhost\<close> become
  \<open>127.0.0.1\<close>, and in general the candidate is returned as rewritten. When no candidate of
  any source validates, the result is \<open>127.0.0.1\<close>.
\<close>

theorem normalizeIpAddress_valid_ipv4:
  fixes ip :: "string option" and hdrs :: headers
  defines "srcs \<equiv> [ip, hdrs ''cf-connecting-ip'', hdrs ''x-real-ip'',
                    extractFromForwardedFor (hdrs ''x-forwarded-for''), hdrs ''x-client-ip'',
                    hdrs ''x-forwarded'', hdrs ''forwarded-for'', hdrs ''forwarded'']"
    and "rejected \<equiv> (\<lambda>s. case s of None \<Rightarrow> True
                                  | Some y \<Rightarrow> \<not> isValidIPv4 (normalizeCandidate y))"
  shows
  "isValidIPv4 (normalizeIpAddress ip hdrs) \<and>
   (\<exists>a b c d. normalizeIpAddress ip hdrs = a @ ''.'' @ b @ ''.'' @ c @ ''.'' @ d \<and>
               octet a \<and> octet b \<and> octet c \<and> octet d) \<and>
   (\<forall>i x. i < length srcs \<and> srcs ! i = Some x \<and> (\<forall>j<i. rejected (srcs ! j)) \<longrightarrow>
      (isValidIPv4 x \<longrightarrow> normalizeIpAddress ip hdrs = x) \<and>
      (x = ''::1'' \<or> x = ''localhost'' \<longrightarrow> normalizeIpAddress ip hdrs = ''127.0.0.1'') \<and>
      (isValidIPv4 (normalizeCandidate x) \<longrightarrow>
         normalizeIpAddress ip hdrs = normalizeCandidate x)) \<and>
   ((\<forall>j<length srcs. rejected (srcs ! j)) \<longrightarrow> normalizeIpAddress ip hdrs = ''127.0.0.1'') \<and>
   (\<forall>ff ips k. hdrs ''x-forwarded-for'' = Some ff \<and> ff \<noteq> [] \<and>
      ips = map trim (split_on (CHR '','') ff) \<and> k < length ips \<and> isPublicIP (ips ! k) \<and>
      (\<forall>j<k. \<not> isPublicIP (ips ! j)) \<longrightarrow> srcs ! 3 = Some (ips ! k)) \<and>
   (\<forall>ff ips. hdrs ''x-forwarded-for'' = Some ff \<and> ff \<noteq> [] \<and>
      ips = map trim (split_on (CHR '','') ff) \<and> list_all (\<lambda>a. \<not> isPublicIP a) ips \<longrightarrow>
      srcs ! 3 = (if hd ips = [] then None else Some (hd ips)))"
proof -
  have n: "normalizeIpAddress ip hdrs = firstValid (map the (filter truthy srcs))"
    by (simp add: normalizeIpAddress_def ipSources_def srcs_def)
  have v: "isValidIPv4 (normalizeIpAddress ip hdrs)"
    by (simp add: normalizeIpAddress_def firstValid_valid)
  have g: "normalizeIpAddress ip hdrs = normalizeCandidate x"
    if "i < length srcs" "srcs ! i = Some x" "\<forall>j<i. rejected (srcs ! j)"
      "isValidIPv4 (normalizeCandidate x)" for i x
    unfolding n using that(1,2,4) that(3) [unfolded rejected_def]
    by (rule firstValid_first_accepted)
  have c3: "(isValidIPv4 x \<longrightarrow> normalizeIpAddress ip hdrs = x) \<and>
      (x = ''::1'' \<or> x = ''localhost'' \<longrightarrow> normalizeIpAddress ip hdrs = ''127.0.0.1'') \<and>
      (isValidIPv4 (normalizeCandidate x) \<longrightarrow>
         normalizeIpAddress ip hdrs = normalizeCandidate x)"
    if h: "i < length srcs" "srcs ! i = Some x" "\<forall>j<i. rejected (srcs ! j)" for i x
  proof (intro conjI impI)
    assume "isValidIPv4 x"
    then show "normalizeIpAddress ip hdrs = x"
      using g [OF h] by (simp add: normalizeCandidate_valid)
  next
    assume "x = ''::1'' \<or> x = ''localhost''"
    then have "normalizeCandidate x = ''127.0.0.1''"
      by (auto simp: normalizeCandidate_def startsWith_def)
    then show "normalizeIpAddress ip hdrs = ''127.0.0.1''"
      using g [OF h] loopback_valid by simp
  next
    assume "isValidIPv4 (normalizeCandidate x)"
    then show "normalizeIpAddress ip hdrs = normalizeCandidate x" by (rule g [OF h])
  qed
  have c4: "normalizeIpAddress ip hdrs = ''127.0.0.1''" if "\<forall>j<length srcs. rejected (srcs ! j)"
    unfolding n using that [unfolded rejected_def] by (rule firstValid_none_accepted)
  have x: "srcs ! 3 = extractFromForwardedFor (hdrs ''x-forwarded-for'')"
    by (simp add: srcs_def)
  have c5: "srcs ! 3 = Some (ips ! k)"
    if "hdrs ''x-forwarded-for'' = Some ff" "ff \<noteq> []" "ips = map trim (split_on (CHR '','') ff)"
      "k < length ips" "isPublicIP (ips ! k)" "\<forall>j<k. \<not> isPublicIP (ips ! j)" for ff ips k
    unfolding x using extract_first_public [of ff k] that by simp
  have c6: "srcs ! 3 = (if hd ips = [] then None else Some (hd ips))"
    if "hdrs ''x-forwarded-for'' = Some ff" "ff \<noteq> []" "ips = map trim (split_on (CHR '','') ff)"
      "list_all (\<lambda>a. \<not> isPublicIP a) ips" for ff ips
    unfolding x using extract_no_public [of ff] that split_on_nonempty [of "CHR '',''" ff]
    by (simp add: hd_map)
  from valid_dotted_quad [OF v] v c3 c4 c5 c6 show ?thesis by blast
qed

theorem normalizeIpAddress_valid_ipv4_witness:
  "isValidIPv4 ''8.8.8.8'' \<and>
   normalizeIpAddress None [''x-real-ip'' \<mapsto> ''8.8.8.8''] = ''8.8.8.8'' \<and>
   isValidIPv4 ''8.8.4.4'' \<and> \<not> isValidIPv4 (normalizeCandidate ''unknown'') \<and>
   isPublicIP ''8.8.4.4'' \<and> \<not> isPublicIP ''10.0.0.1'' \<and>
   normalizeIpAddress (Some ''unknown'') [''x-forwarded-for'' \<mapsto> ''10.0.0.1, 8.8.4.4''] =
     ''8.8.4.4'' \<and>
   normalizeIpAddress None [''forwarded'' \<mapsto> ''::1''] = ''127.0.0.1'' \<and>
   \<not> isValidIPv4 (normalizeCandidate ''not-an-ip'') \<and>
   normalizeIpAddress (Some ''not-an-ip'') Map.empty = ''127.0.0.1''"
proof -
  have v: "isValidIPv4 ''8.8.8.8''" "isValidIPv4 ''8.8.4.4''"
    by (simp_all add: isValidIPv4_def ipv4Regex_test_def isDigit_def parseInt10_def digitVal_def)
  have u: "\<not> isValidIPv4 (normalizeCandidate ''unknown'')"
    "\<not> isValidIPv4 (normalizeCandidate ''not-an-ip'')"
    by (simp_all add: normalizeCandidate_def startsWith_def isValidIPv4_def ipv4Regex_test_def)
  have p: "isPublicIP ''8.8.4.4''" "\<not> isPublicIP ''10.0.0.1''"
    by (simp_all add: isPublicIP_def privateRanges_def startsWith_def)
  have x: "extractFromForwardedFor (Some ''10.0.0.1, 8.8.4.4'') = Some ''8.8.4.4''"
    by code_simp
  have lt: "(\<forall>j<Suc n. P j) = (P n \<and> (\<forall>j<n. P j))" for n and P :: "nat \<Rightarrow> bool"
    by (auto simp: less_Suc_eq)
  from normalizeIpAddress_valid_ipv4 [of None "[''x-real-ip'' \<mapsto> ''8.8.8.8'']"] v(1)
  have a: "normalizeIpAddress None [''x-real-ip'' \<mapsto> ''8.8.8.8''] = ''8.8.8.8''"
    by (elim conjE allE [of _ 2] allE [of _ "''8.8.8.8''"]) (simp add: numeral_2_eq_2 lt)
  from normalizeIpAddress_valid_ipv4
    [of "Some ''unknown''" "[''x-forwarded-for'' \<mapsto> ''10.0.0.1, 8.8.4.4'']"] v(2) u(1) x
  have b: "normalizeIpAddress (Some ''unknown'')
             [''x-forwarded-for'' \<mapsto> ''10.0.0.1, 8.8.4.4''] = ''8.8.4.4''"
    by (elim conjE allE [of _ 3] allE [of _ "''8.8.4.4''"]) (simp add: numeral_3_eq_3 lt)
  from normalizeIpAddress_valid_ipv4 [of None "[''forwarded'' \<mapsto> ''::1'']"]
  have c: "normalizeIpAddress None [''forwarded'' \<mapsto> ''::1''] = ''127.0.0.1''"
    by (elim conjE allE [of _ 7] allE [of _ "''::1''"])
       (simp add: eval_nat_numeral lt extractFromForwardedFor_def)
  from normalizeIpAddress_valid_ipv4 [of "Some ''not-an-ip''" Map.empty] u(2)
  have d: "normalizeIpAddress (Some ''not-an-ip'') Map.empty = ''127.0.0.1''"
    by (elim conjE) (simp add: eval_nat_numeral lt extractFromForwardedFor_def)
  from v u p a b c d show ?thesis by simp
qed

section \<open>Properties of the ingestion pipeline\<close>

lemma geoHook_fields:
  "urlId (fst (geoHook e n c)) = urlId c"
  "ipAddress (fst (geoHook e n c)) = ipAddress c"
  "isUnique (fst (geoHook e n c)) = isUnique c"
  "userAgent (fst (geoHook e n c)) = userAgent c"
  "isBot (fst (geoHook e n c)) = isBot c"
  by (simp_all add: geoHook_def split: lookupResult.splits)

lemma botHook_fields:
  "urlId (botHook n c) = urlId c"
  "ipAddress (botHook n c) = ipAddress c"
  "isUnique (botHook n c) = isUnique c"
  "userAgent (botHook n c) = userAgent c"
  "location (botHook n c) = location c"
  by (simp_all add: botHook_def)

lemma saveNew_cases:
  "(\<exists>msg. saveNew e store c = (Inl (Error msg), store) \<and>
          (validationErrors c = [] \<longrightarrow> save_fault e = Some msg)) \<or>
   (\<exists>c'. saveNew e store c = (Inr c', store @ [c']) \<and>
         c' = (botHook True (fst (geoHook e True c)))\<lparr>clickedAt := now e\<rparr> \<and>
         validationErrors c = [] \<and> save_fault e = None)"
  by (auto simp: saveNew_def Let_def split: list.splits option.splits)

lemma saveNew_ok:
  assumes "validationErrors c = []" and "save_fault e = None"
  shows "saveNew e store c =
           (Inr ((botHook True (fst (geoHook e True c)))\<lparr>clickedAt := now e\<rparr>),
            store @ [(botHook True (fst (geoHook e True c)))\<lparr>clickedAt := now e\<rparr>])"
  using assms by (simp add: saveNew_def Let_def)

text \<open>
  The two ways a call ends: an error with the database as it was, or a stored event and
  one counter update.
\<close>

lemma recordClick_cases:
  "(\<exists>msg. recordClick e st cd = (Inl (failed msg), st)) \<or>
   (\<exists>u c r. urls st (cd_urlId cd) = Some u \<and> isActive u \<and> \<not> isExpired u \<and>
      findById_fault e = None \<and>
      saveNew e (clicks st)
        (newClick cd (normalizeIpAddress (cd_ipAddress cd) (cd_headers cd))
           (isUniqueClick (findOne_fault e) (clicks st) (cd_urlId cd)
              (normalizeIpAddress (cd_ipAddress cd) (cd_headers cd)))) = (Inr c, clicks st @ [c]) \<and>
      fst (recordClick e st cd) = Inr r \<and> rr_click r = c \<and>
      clicks (snd (recordClick e st cd)) = clicks st @ [c] \<and>
      urls (snd (recordClick e st cd)) =
        updateUrlStats e (urls st) (cd_urlId cd)
          (isUniqueClick (findOne_fault e) (clicks st) (cd_urlId cd)
              (normalizeIpAddress (cd_ipAddress cd) (cd_headers cd))))"
proof (cases "findById_fault e")
  case (Some msg)
  then have "recordClick e st cd = (Inl (failed msg), st)"
    by (simp add: recordClick_def)
  then show ?thesis by blast
next
  case None
  note nf = None
  show ?thesis
  proof (cases "urls st (cd_urlId cd)")
    case None
    with nf have "recordClick e st cd = (Inl (failed ''URL not found or inactive''), st)"
      by (simp add: recordClick_def)
    then show ?thesis by blast
  next
    case (Some u)
    note su = Some
    show ?thesis
    proof (cases "isActive u \<and> \<not> isExpired u")
      case False
      with nf su have "recordClick e st cd = (Inl (failed ''URL not found or inactive''), st) \<or>
          recordClick e st cd = (Inl (failed ''URL has expired''), st)"
        by (auto simp: recordClick_def Let_def)
      then show ?thesis by blast
    next
      case True
      let ?ip = "normalizeIpAddress (cd_ipAddress cd) (cd_headers cd)"
      let ?q = "isUniqueClick (findOne_fault e) (clicks st) (cd_urlId cd) ?ip"
      from saveNew_cases [of e "clicks st" "newClick cd ?ip ?q"]
      consider msg where "saveNew e (clicks st) (newClick cd ?ip ?q) = (Inl (Error msg), clicks st)"
        | c where "saveNew e (clicks st) (newClick cd ?ip ?q) = (Inr c, clicks st @ [c])"
        by blast
      then show ?thesis
      proof cases
        case 1
        with nf su True have "recordClick e st cd = (Inl (failed msg), st)"
          by (simp add: recordClick_def Let_def)
        then show ?thesis by blast
      next
        case 2
        with nf su True have
          "\<exists>r. fst (recordClick e st cd) = Inr r \<and> rr_click r = c"
          "clicks (snd (recordClick e st cd)) = clicks st @ [c]"
          "urls (snd (recordClick e st cd)) = updateUrlStats e (urls st) (cd_urlId cd) ?q"
          by (simp_all add: recordClick_def Let_def split: option.splits)
        with nf su True 2 show ?thesis by blast
      qed
    qed
  qed
qed

text \<open>
  C3 as stated fails: the URL guard has no single outcome for the three conditions. An
  inactive URL and an expired one make \<open>recordClick\<close> throw different errors, neither of
  them of a \<open>NotFound\<close> kind: both are plain \<open>Error\<close>s that differ in their message.
\<close>

theorem url_guard_outcomes_differ:
  "fst (recordClick sampleEnv
          (sampleDb\<lparr>urls := [1 \<mapsto> sampleUrl\<lparr>isActive := False\<rparr>]\<rparr>) sampleClick) =
     Inl (Error ''Click recording failed: URL not found or inactive'') \<and>
   fst (recordClick sampleEnv
          (sampleDb\<lparr>urls := [1 \<mapsto> sampleUrl\<lparr>isExpired := True\<rparr>]\<rparr>) sampleClick) =
     Inl (Error ''Click recording failed: URL has expired'') \<and>
   fst (recordClick sampleEnv
          (sampleDb\<lparr>urls := [1 \<mapsto> sampleUrl\<lparr>isActive := False\<rparr>]\<rparr>) sampleClick) \<noteq>
   fst (recordClick sampleEnv
          (sampleDb\<lparr>urls := [1 \<mapsto> sampleUrl\<lparr>isExpired := True\<rparr>]\<rparr>) sampleClick)"
  by (simp add: recordClick_def Let_def sampleEnv_def sampleDb_def sampleUrl_def
      sampleClick_def failed_def)

text \<open>
  C3, as the code has it. When the URL lookup returns no document or an inactive one,
  \<open>recordClick\<close> throws the error \<open>Click recording failed: URL not found or inactive\<close>;
  when it returns an active document that has expired, \<open>recordClick\<close> throws
  \<open>Click recording failed: URL has expired\<close>. In all three cases the database is exactly
  what it was: no click is stored and no counter is touched.
\<close>

theorem recordClick_not_found_no_write:
  assumes "findById_fault e = None"
  shows "(urls st (cd_urlId cd) = None \<or>
          (\<exists>u. urls st (cd_urlId cd) = Some u \<and> \<not> isActive u) \<longrightarrow>
            recordClick e st cd =
              (Inl (Error ''Click recording failed: URL not found or inactive''), st)) \<and>
         ((\<exists>u. urls st (cd_urlId cd) = Some u \<and> isActive u \<and> isExpired u) \<longrightarrow>
            recordClick e st cd = (Inl (Error ''Click recording failed: URL has expired''), st))"
  using assms by (auto simp: recordClick_def Let_def failed_def)

theorem recordClick_not_found_no_write_witness:
  "findById_fault sampleEnv = None \<and>
   urls sampleDb (cd_urlId (sampleClick\<lparr>cd_urlId := 2\<rparr>)) = None \<and>
   recordClick sampleEnv sampleDb (sampleClick\<lparr>cd_urlId := 2\<rparr>) =
     (Inl (Error ''Click recording failed: URL not found or inactive''), sampleDb) \<and>
   recordClick sampleEnv (sampleDb\<lparr>urls := [1 \<mapsto> sampleUrl\<lparr>isActive := False\<rparr>]\<rparr>) sampleClick =
     (Inl (Error ''Click recording failed: URL not found or inactive''),
      sampleDb\<lparr>urls := [1 \<mapsto> sampleUrl\<lparr>isActive := False\<rparr>]\<rparr>) \<and>
   recordClick sampleEnv (sampleDb\<lparr>urls := [1 \<mapsto> sampleUrl\<lparr>isExpired := True\<rparr>]\<rparr>) sampleClick =
     (Inl (Error ''Click recording failed: URL has expired''),
      sampleDb\<lparr>urls := [1 \<mapsto> sampleUrl\<lparr>isExpired := True\<rparr>]\<rparr>)"
proof -
  have f: "findById_fault sampleEnv = None" by (simp add: sampleEnv_def)
  have a: "urls sampleDb (cd_urlId (sampleClick\<lparr>cd_urlId := 2\<rparr>)) = None"
    by (simp add: sampleDb_def)
  have i: "cd_urlId sampleClick = 1" by (simp add: sampleClick_def)
  have u: "\<not> isActive (sampleUrl\<lparr>isActive := False\<rparr>)"
    "isActive (sampleUrl\<lparr>isExpired := True\<rparr>)" "isExpired (sampleUrl\<lparr>isExpired := True\<rparr>)"
    by (simp_all add: sampleUrl_def)
  from recordClick_not_found_no_write [OF f, of sampleDb "sampleClick\<lparr>cd_urlId := 2\<rparr>"] a
  have 1: "recordClick sampleEnv sampleDb (sampleClick\<lparr>cd_urlId := 2\<rparr>) =
     (Inl (Error ''Click recording failed: URL not found or inactive''), sampleDb)"
    by blast
  from recordClick_not_found_no_write
    [OF f, of "sampleDb\<lparr>urls := [1 \<mapsto> sampleUrl\<lparr>isActive := False\<rparr>]\<rparr>" sampleClick] i u(1)
  have 2: "recordClick sampleEnv
             (sampleDb\<lparr>urls := [1 \<mapsto> sampleUrl\<lparr>isActive := False\<rparr>]\<rparr>) sampleClick =
     (Inl (Error ''Click recording failed: URL not found or inactive''),
      sampleDb\<lparr>urls := [1 \<mapsto> sampleUrl\<lparr>isActive := False\<rparr>]\<rparr>)"
    by simp
  from recordClick_not_found_no_write
    [OF f, of "sampleDb\<lparr>urls := [1 \<mapsto> sampleUrl\<lparr>isExpired := True\<rparr>]\<rparr>" sampleClick] i u(2,3)
  have 3: "recordClick sampleEnv
             (sampleDb\<lparr>urls := [1 \<mapsto> sampleUrl\<lparr>isExpired := True\<rparr>]\<rparr>) sampleClick =
     (Inl (Error ''Click recording failed: URL has expired''),
      sampleDb\<lparr>urls := [1 \<mapsto> sampleUrl\<lparr>isExpired := True\<rparr>]\<rparr>)"
    by simp
  from f a 1 2 3 show ?thesis by simp
qed

lemma recordClick_save_failed:
  assumes "findById_fault e = None" and "urls st (cd_urlId cd) = Some u"
    and "isActive u" and "\<not> isExpired u"
    and "fst (saveNew e (clicks st) (clickOf e st cd)) = Inl (Error msg)"
  shows "recordClick e st cd = (Inl (failed msg), st)"
proof -
  from saveNew_cases [of e "clicks st" "clickOf e st cd"] assms(5)
  have "saveNew e (clicks st) (clickOf e st cd) = (Inl (Error msg), clicks st)" by auto
  with assms(1-4) show ?thesis
    by (simp add: recordClick_def clickOf_def Let_def)
qed

lemma recordClick_saved:
  assumes "findById_fault e = None" and "urls st (cd_urlId cd) = Some u"
    and "isActive u" and "\<not> isExpired u"
    and "validationErrors (clickOf e st cd) = []" and "save_fault e = None"
  shows "\<exists>r. recordClick e st cd = (Inr r, snd (recordClick e st cd)) \<and>
             rr_click r = (botHook True (fst (geoHook e True (clickOf e st cd))))\<lparr>clickedAt := now e\<rparr> \<and>
             lc_isUnique (analytics r) = isUnique (clickOf e st cd) \<and>
             clicks (snd (recordClick e st cd)) = clicks st @ [rr_click r] \<and>
             urls (snd (recordClick e st cd)) =
               updateUrlStats e (urls st) (cd_urlId cd) (isUnique (clickOf e st cd))"
proof -
  let ?c = "(botHook True (fst (geoHook e True (clickOf e st cd))))\<lparr>clickedAt := now e\<rparr>"
  have s: "saveNew e (clicks st) (clickOf e st cd) = (Inr ?c, clicks st @ [?c])"
    using saveNew_ok [OF assms(5,6)] .
  have q: "isUnique (clickOf e st cd) =
      isUniqueClick (findOne_fault e) (clicks st) (cd_urlId cd)
        (normalizeIpAddress (cd_ipAddress cd) (cd_headers cd))"
    by (simp add: clickOf_def newClick_def Let_def)
  from s assms(1-4) show ?thesis
    unfolding q
    by (auto simp: recordClick_def clickOf_def Let_def split: option.splits)
qed

text \<open>
  C4, as the code has it. A failed save is rethrown by \<open>recordClick\<close> with the database
  exactly as it was, so no counter is incremented; a store rejection of the insert is one
  such failure. A failed counter update is caught inside \<open>_updateUrlStats\<close>: \<open>recordClick\<close>
  returns normally, the event stays stored and the URL's counters are left as they were.
\<close>

theorem recordClick_storage_failures:
  assumes "findById_fault e = None" and "urls st (cd_urlId cd) = Some u"
    and "isActive u" and "\<not> isExpired u"
  shows "(fst (saveNew e (clicks st) (clickOf e st cd)) = Inl (Error msg) \<longrightarrow>
            recordClick e st cd = (Inl (failed msg), st)) \<and>
         (validationErrors (clickOf e st cd) = [] \<and> save_fault e = Some msg \<longrightarrow>
            fst (saveNew e (clicks st) (clickOf e st cd)) = Inl (Error msg)) \<and>
         (validationErrors (clickOf e st cd) = [] \<and> save_fault e = None \<and>
          urlUpdate_fault e = Some msg' \<longrightarrow>
            (\<exists>r. fst (recordClick e st cd) = Inr r \<and>
                  clicks (snd (recordClick e st cd)) = clicks st @ [rr_click r]) \<and>
            urls (snd (recordClick e st cd)) = urls st)"
proof (intro conjI impI)
  assume "fst (saveNew e (clicks st) (clickOf e st cd)) = Inl (Error msg)"
  with assms show "recordClick e st cd = (Inl (failed msg), st)"
    by (rule recordClick_save_failed)
next
  assume "validationErrors (clickOf e st cd) = [] \<and> save_fault e = Some msg"
  then show "fst (saveNew e (clicks st) (clickOf e st cd)) = Inl (Error msg)"
    by (simp add: saveNew_def Let_def)
next
  assume a: "validationErrors (clickOf e st cd) = [] \<and> save_fault e = None \<and>
          urlUpdate_fault e = Some msg'"
  from a have v: "validationErrors (clickOf e st cd) = []" and sf: "save_fault e = None"
    by simp_all
  from recordClick_saved [OF assms v sf] obtain r where
    r: "recordClick e st cd = (Inr r, snd (recordClick e st cd))"
      "clicks (snd (recordClick e st cd)) = clicks st @ [rr_click r]"
      "urls (snd (recordClick e st cd)) =
         updateUrlStats e (urls st) (cd_urlId cd) (isUnique (clickOf e st cd))"
    by blast
  from r(1) have "fst (recordClick e st cd) = Inr r" by (metis fst_conv)
  with r(2) show "\<exists>r. fst (recordClick e st cd) = Inr r \<and>
                  clicks (snd (recordClick e st cd)) = clicks st @ [rr_click r]" by blast
  from r(3) a show "urls (snd (recordClick e st cd)) = urls st"
    by (simp add: updateUrlStats_def)
qed


lemma sample_guard:
  "urls sampleDb (cd_urlId sampleClick) = Some sampleUrl" "isActive sampleUrl"
  "\<not> isExpired sampleUrl"
  by (simp_all add: sampleDb_def sampleClick_def sampleUrl_def)

theorem recordClick_storage_failures_witness:
  "validationErrors (clickOf (sampleEnv\<lparr>save_fault := Some ''disk full''\<rparr>) sampleDb sampleClick) = [] \<and>
   save_fault (sampleEnv\<lparr>save_fault := Some ''disk full''\<rparr>) = Some ''disk full'' \<and>
   recordClick (sampleEnv\<lparr>save_fault := Some ''disk full''\<rparr>) sampleDb sampleClick =
     (Inl (failed ''disk full''), sampleDb) \<and>
   urlUpdate_fault (sampleEnv\<lparr>urlUpdate_fault := Some ''write conflict''\<rparr>) = Some ''write conflict'' \<and>
   \<not> isl (fst (recordClick (sampleEnv\<lparr>urlUpdate_fault := Some ''write conflict''\<rparr>)
                 sampleDb sampleClick)) \<and>
   length (clicks (snd (recordClick (sampleEnv\<lparr>urlUpdate_fault := Some ''write conflict''\<rparr>)
                          sampleDb sampleClick))) = 1 \<and>
   urls (snd (recordClick (sampleEnv\<lparr>urlUpdate_fault := Some ''write conflict''\<rparr>)
               sampleDb sampleClick)) = urls sampleDb"
proof -
  let ?e1 = "sampleEnv\<lparr>save_fault := Some ''disk full''\<rparr>"
  let ?e2 = "sampleEnv\<lparr>urlUpdate_fault := Some ''write conflict''\<rparr>"
  have f1: "findById_fault ?e1 = None" and f2: "findById_fault ?e2 = None"
    by (simp_all add: sampleEnv_def)
  have v1: "validationErrors (clickOf ?e1 sampleDb sampleClick) = []" by code_simp
  have v2: "validationErrors (clickOf ?e2 sampleDb sampleClick) = []" by code_simp
  have s1: "save_fault ?e1 = Some ''disk full''" by simp
  have s2: "save_fault ?e2 = None" "urlUpdate_fault ?e2 = Some ''write conflict''"
    by (simp_all add: sampleEnv_def)
  have c: "clicks sampleDb = []" by (simp add: sampleDb_def)
  from recordClick_storage_failures [OF f1 sample_guard, of "''disk full''"] v1 s1
  have r1: "recordClick ?e1 sampleDb sampleClick = (Inl (failed ''disk full''), sampleDb)"
    by blast
  from recordClick_storage_failures [OF f2 sample_guard, of _ "''write conflict''"] v2 s2
  have r2: "(\<exists>r. fst (recordClick ?e2 sampleDb sampleClick) = Inr r \<and>
               clicks (snd (recordClick ?e2 sampleDb sampleClick)) = clicks sampleDb @ [rr_click r])"
    "urls (snd (recordClick ?e2 sampleDb sampleClick)) = urls sampleDb"
    by blast+
  from r2(1) c have "\<not> isl (fst (recordClick ?e2 sampleDb sampleClick))"
    "length (clicks (snd (recordClick ?e2 sampleDb sampleClick))) = 1"
    by auto
  with v1 s1 r1 s2 r2(2) show ?thesis by simp
qed

text \<open>
  The claim's second half fails: with the counter update rejected, \<open>recordClick\<close> still
  returns normally, so the caller never sees the failure; the event is stored while the
  counters stay at zero.
\<close>

theorem counter_failure_not_propagated:
  "urlUpdate_fault (sampleEnv\<lparr>urlUpdate_fault := Some ''write conflict''\<rparr>) = Some ''write conflict'' \<and>
   \<not> isl (fst (recordClick (sampleEnv\<lparr>urlUpdate_fault := Some ''write conflict''\<rparr>)
                 sampleDb sampleClick)) \<and>
   length (clicks (snd (recordClick (sampleEnv\<lparr>urlUpdate_fault := Some ''write conflict''\<rparr>)
                          sampleDb sampleClick))) = 1 \<and>
   map_option clickCount
     (urls (snd (recordClick (sampleEnv\<lparr>urlUpdate_fault := Some ''write conflict''\<rparr>)
                   sampleDb sampleClick)) 1) = Some 0"
  by code_simp

text \<open>
  C9. A rejected \<open>findOne\<close> makes \<open>isUniqueClick\<close> answer false whatever the store holds,
  and an ingestion that goes through then stores its event with \<open>isUnique = false\<close>.
\<close>

theorem lookup_failure_recorded_non_unique:
  assumes "findOne_fault e = Some msg"
    and "findById_fault e = None" and "urls st (cd_urlId cd) = Some u"
    and "isActive u" and "\<not> isExpired u"
    and "validationErrors (clickOf e st cd) = []" and "save_fault e = None"
  shows "\<not> isUniqueClick (findOne_fault e) store uid ip \<and>
         (\<exists>r. fst (recordClick e st cd) = Inr r \<and>
               clicks (snd (recordClick e st cd)) = clicks st @ [rr_click r] \<and>
               \<not> isUnique (rr_click r) \<and> \<not> lc_isUnique (analytics r))"
proof -
  from assms(1) have n: "\<not> isUniqueClick (findOne_fault e) store uid ip" for store uid ip
    by (simp add: isUniqueClick_def)
  then have q: "\<not> isUnique (clickOf e st cd)"
    by (simp add: clickOf_def newClick_def Let_def)
  from recordClick_saved [OF assms(2-7)] obtain r where
    r: "recordClick e st cd = (Inr r, snd (recordClick e st cd))"
      "rr_click r = (botHook True (fst (geoHook e True (clickOf e st cd))))\<lparr>clickedAt := now e\<rparr>"
      "lc_isUnique (analytics r) = isUnique (clickOf e st cd)"
      "clicks (snd (recordClick e st cd)) = clicks st @ [rr_click r]"
    by blast
  from r(1) have "fst (recordClick e st cd) = Inr r" by (metis fst_conv)
  moreover from r(2) q have "\<not> isUnique (rr_click r)"
    by (simp add: botHook_fields geoHook_fields)
  moreover from r(3) q have "\<not> lc_isUnique (analytics r)" by simp
  ultimately show ?thesis using n r(4) by blast
qed

theorem lookup_failure_recorded_non_unique_witness:
  "findOne_fault (sampleEnv\<lparr>findOne_fault := Some ''timeout''\<rparr>) = Some ''timeout'' \<and>
   clicks sampleDb = [] \<and>
   map isUnique (clicks (snd (recordClick (sampleEnv\<lparr>findOne_fault := Some ''timeout''\<rparr>)
                               sampleDb sampleClick))) = [False]"
proof -
  let ?e = "sampleEnv\<lparr>findOne_fault := Some ''timeout''\<rparr>"
  have f: "findOne_fault ?e = Some ''timeout''" "findById_fault ?e = None" "save_fault ?e = None"
    by (simp_all add: sampleEnv_def)
  have v: "validationErrors (clickOf ?e sampleDb sampleClick) = []" by code_simp
  have c: "clicks sampleDb = []" by (simp add: sampleDb_def)
  have "\<exists>r::recordResult.
          clicks (snd (recordClick ?e sampleDb sampleClick)) = clicks sampleDb @ [rr_click r] \<and>
          \<not> isUnique (rr_click r)"
    using lookup_failure_recorded_non_unique
         [OF f(1) f(2) sample_guard v f(3), where store = "[]" and uid = 0 and ip = "[]"]
    by blast
  then have "map isUnique (clicks (snd (recordClick ?e sampleDb sampleClick))) = [False]"
    using c by (elim exE conjE) simp
  with c f(1) show ?thesis by simp
qed

section \<open>Uniqueness over a run of ingestions\<close>








text \<open>
  The run above contains ingestions only. Uniqueness is decided against the events that
  are stored at the time: when the retention purge has deleted the events of a pair, the
  next event of that pair finds none and is recorded as unique again.
\<close>

lemma purge_resets_uniqueness:
  "(case fst (recordClick sampleEnv sampleDb sampleClick) of
      Inl err \<Rightarrow> False
    | Inr r \<Rightarrow> urlId (rr_click r) = 1 \<and> ipAddress (rr_click r) = ''203.0.113.5'' \<and>
               isUnique (rr_click r)) \<and>
   map_option
     (\<lambda>st. case fst (recordClick (sampleEnv\<lparr>now := 6000\<rparr>) st sampleClick) of
             Inl err \<Rightarrow> False
           | Inr r \<Rightarrow> urlId (rr_click r) = 1 \<and> ipAddress (rr_click r) = ''203.0.113.5'' \<and>
                      isUnique (rr_click r))
     (applyOps [Ingest sampleEnv sampleClick,
                Purge (sampleCleanupEnv\<lparr>cl_now := 5000\<rparr>) (sampleCleanup False)] sampleDb) =
     Some True"
  by code_simp

section \<open>Properties of the save hooks\<close>

lemma isLocalOrPrivate_nonempty: "isLocalOrPrivate ip \<Longrightarrow> ip \<noteq> []"
  by (auto simp: isLocalOrPrivate_def startsWith_def)

lemma geoHook_private:
  assumes "enableGeolocation e" and "isLocalOrPrivate (ipAddress c)"
  shows "geoHook e True c = (c\<lparr>location := localPrivateLocation\<rparr>, [])"
  using assms isLocalOrPrivate_nonempty [OF assms(2)] by (simp add: geoHook_def)

text \<open>
  C8 as stated fails when geolocation is switched off: the hook is then skipped as a
  whole, and a new click from \<open>192.168.1.1\<close> keeps its empty location.
\<close>

theorem geolocation_disabled_no_placeholder:
  "isLocalOrPrivate ''192.168.1.1'' \<and>
   location (fst (geoHook (sampleEnv\<lparr>enableGeolocation := False\<rparr>) True
                    (newClick sampleClick ''192.168.1.1'' True))) = emptyLocation \<and>
   emptyLocation \<noteq> localPrivateLocation"
  by (simp add: isLocalOrPrivate_def startsWith_def geoHook_def newClick_def emptyLocation_def
      localPrivateLocation_def)

lemma geoHook_disabled:
  "\<not> enableGeolocation e \<Longrightarrow> geoHook e n c = (c, [])"
  by (simp add: geoHook_def)

lemma isPublic_172_outside:
  assumes "startsWith ip ''172.''" and "\<not> (privateRanges ! 1) ip"
  shows "isPublicIP ip"
proof -
  from assms(1) obtain post where ip: "ip = ''172.'' @ post"
    by (metis append_take_drop_id startsWith_def)
  have "\<not> (privateRanges ! 0) ip" "\<not> (privateRanges ! 2) ip" "\<not> (privateRanges ! 3) ip"
    "\<not> (privateRanges ! 4) ip" "\<not> (privateRanges ! 5) ip" "\<not> (privateRanges ! 6) ip"
    unfolding ip by (simp_all add: privateRanges_def startsWith_def)
  with assms(2) have "\<not> list_ex (\<lambda>range. range ip) privateRanges"
    by (simp add: privateRanges_def)
  moreover from ip have "ip \<noteq> []" by simp
  ultimately show ?thesis by (simp add: isPublicIP_def)
qed

lemma digitVal_simps:
  "digitVal CHR ''0'' = 0" "digitVal CHR ''1'' = 1" "digitVal CHR ''2'' = 2"
  "digitVal CHR ''3'' = 3" "digitVal CHR ''4'' = 4" "digitVal CHR ''5'' = 5"
  "digitVal CHR ''6'' = 6" "digitVal CHR ''7'' = 7" "digitVal CHR ''8'' = 8"
  "digitVal CHR ''9'' = 9"
  by (simp_all add: digitVal_def)

lemma second_range_value:
  assumes "list_all isDigit b" and "parseInt10 b = Some v"
    and "(privateRanges ! 1) (''172.'' @ b @ ''.'' @ rest)"
  shows "16 \<le> v \<and> v \<le> 31"
proof -
  from assms(2) have ne: "b \<noteq> []" by (auto simp: parseInt10_def)
  from assms(3) have m: "case b @ ''.'' @ rest of
               x # y # z # _ \<Rightarrow>
                 ((x = CHR ''1'' \<and> y \<in> set ''6789'') \<or>
                  (x = CHR ''2'' \<and> y \<in> set ''0123456789'') \<or>
                  (x = CHR ''3'' \<and> y \<in> set ''01'')) \<and> z = CHR ''.''
             | _ \<Rightarrow> False"
    by (simp add: privateRanges_def)
  from ne obtain x b1 where b: "b = x # b1" by (cases b) auto
  show ?thesis
  proof (cases b1)
    case Nil
    with m b show ?thesis by (simp split: list.splits)
  next
    case (Cons y b2)
    show ?thesis
    proof (cases b2)
      case Nil
      from m b Cons Nil have xy:
        "(x = CHR ''1'' \<and> y \<in> set ''6789'') \<or> (x = CHR ''2'' \<and> y \<in> set ''0123456789'') \<or>
         (x = CHR ''3'' \<and> y \<in> set ''01'')"
        by simp
      from parseInt10_digits [OF assms(1) ne] assms(2) b Cons Nil
      have v: "v = 10 * digitVal x + digitVal y" by simp
      from xy show ?thesis unfolding v by (auto simp: digitVal_simps)
    next
      case (Cons z b3)
      with assms(1) b \<open>b1 = y # b2\<close> have "isDigit z" by simp
      then have "z \<noteq> CHR ''.''" by (auto simp: isDigit_def)
      with m b \<open>b1 = y # b2\<close> Cons show ?thesis by simp
    qed
  qed
qed

text \<open>
  C8, as the code has it. With geolocation enabled, a new click whose address is
  \<open>127.0.0.1\<close> or \<open>::1\<close>, or starts with \<open>192.168.\<close>, \<open>10.\<close> or \<open>172.\<close>, gets the fixed
  Local/Private location and \<open>geoip.lookup\<close> is not called; a save that goes through
  stores the event with that location. Every address that starts with \<open>172.\<close> and is not
  matched by the \<open>172.16.0.0/12\<close> pattern of \<open>_isPublicIP\<close>, in particular every address
  \<open>172.b.\<dots>\<close> whose second group \<open>b\<close> has a value below 16 or above 31, such as
  \<open>172.32.0.1\<close>, is classified as public by \<open>_isPublicIP\<close> and still gets the placeholder.
  With geolocation disabled the hook changes nothing and performs no lookup, whatever the
  address, and a save that goes through stores the event with the location it was given.
\<close>

theorem private_address_gets_placeholder:
  "(enableGeolocation e \<and>
    (ipAddress c = ''127.0.0.1'' \<or> ipAddress c = ''::1'' \<or>
     startsWith (ipAddress c) ''192.168.'' \<or> startsWith (ipAddress c) ''10.'' \<or>
     startsWith (ipAddress c) ''172.'') \<longrightarrow>
      geoHook e True c = (c\<lparr>location := localPrivateLocation\<rparr>, []) \<and>
      (validationErrors c = [] \<and> save_fault e = None \<longrightarrow>
         (\<exists>c'. saveNew e store c = (Inr c', store @ [c']) \<and>
                location c' = localPrivateLocation))) \<and>
   (\<forall>ip. startsWith ip ''172.'' \<and> \<not> (privateRanges ! 1) ip \<longrightarrow> isPublicIP ip) \<and>
   (\<forall>b rest v. list_all isDigit b \<and> parseInt10 b = Some v \<and> (v < 16 \<or> 31 < v) \<longrightarrow>
      startsWith (''172.'' @ b @ ''.'' @ rest) ''172.'' \<and>
      isPublicIP (''172.'' @ b @ ''.'' @ rest)) \<and>
   startsWith ''172.32.0.1'' ''172.'' \<and> isPublicIP ''172.32.0.1'' \<and>
   (\<not> enableGeolocation e \<longrightarrow>
      geoHook e isNew c = (c, []) \<and>
      (validationErrors c = [] \<and> save_fault e = None \<longrightarrow>
         (\<exists>c'. saveNew e store c = (Inr c', store @ [c']) \<and> location c' = location c)))"
proof -
  have g: "geoHook e True c = (c\<lparr>location := localPrivateLocation\<rparr>, [])"
    if "enableGeolocation e"
      "ipAddress c = ''127.0.0.1'' \<or> ipAddress c = ''::1'' \<or>
       startsWith (ipAddress c) ''192.168.'' \<or> startsWith (ipAddress c) ''10.'' \<or>
       startsWith (ipAddress c) ''172.''"
  proof -
    from that(2) have "isLocalOrPrivate (ipAddress c)" by (simp add: isLocalOrPrivate_def)
    with that(1) show ?thesis by (rule geoHook_private)
  qed
  have s: "\<exists>c'. saveNew e store c = (Inr c', store @ [c']) \<and> location c' = localPrivateLocation"
    if "geoHook e True c = (c\<lparr>location := localPrivateLocation\<rparr>, [])"
      "validationErrors c = []" "save_fault e = None"
    using saveNew_ok [OF that(2,3), of store] that(1) by (simp add: botHook_fields)
  have p: "isPublicIP ip" if "startsWith ip ''172.''" "\<not> (privateRanges ! 1) ip" for ip
    using that by (rule isPublic_172_outside)
  have sw: "startsWith (''172.'' @ b @ ''.'' @ rest) ''172.''" for b rest
    by (simp add: startsWith_def)
  have q: "isPublicIP (''172.'' @ b @ ''.'' @ rest)"
    if "list_all isDigit b" "parseInt10 b = Some v" "v < 16 \<or> 31 < v" for b rest v
  proof (rule isPublic_172_outside [OF sw])
    show "\<not> (privateRanges ! 1) (''172.'' @ b @ ''.'' @ rest)"
      using second_range_value [OF that(1,2), of rest] that(3) by auto
  qed
  have x: "startsWith ''172.32.0.1'' ''172.''" by (simp add: startsWith_def)
  have y: "isPublicIP ''172.32.0.1''"
    by (simp add: isPublicIP_def privateRanges_def startsWith_def)
  have d: "geoHook e isNew c = (c, [])" if "\<not> enableGeolocation e"
    using that by (rule geoHook_disabled)
  have ds: "\<exists>c'. saveNew e store c = (Inr c', store @ [c']) \<and> location c' = location c"
    if "\<not> enableGeolocation e" "validationErrors c = []" "save_fault e = None"
    using saveNew_ok [OF that(2,3), of store] geoHook_disabled [OF that(1), of True c]
    by (simp add: botHook_fields)
  from g s p sw q x y d ds show ?thesis by blast
qed

theorem private_address_gets_placeholder_witness:
  "enableGeolocation sampleEnv \<and>
   startsWith (ipAddress (newClick sampleClick ''172.32.0.1'' True)) ''172.'' \<and>
   validationErrors (newClick sampleClick ''172.32.0.1'' True) = [] \<and>
   save_fault sampleEnv = None \<and>
   snd (geoHook sampleEnv True (newClick sampleClick ''172.32.0.1'' True)) = [] \<and>
   map location (snd (saveNew sampleEnv [] (newClick sampleClick ''172.32.0.1'' True))) =
     [localPrivateLocation] \<and>
   list_all isDigit ''32'' \<and> parseInt10 ''32'' = Some 32 \<and>
   isPublicIP (''172.'' @ ''32'' @ ''.'' @ ''0.1'') \<and>
   \<not> enableGeolocation (sampleEnv\<lparr>enableGeolocation := False\<rparr>) \<and>
   save_fault (sampleEnv\<lparr>enableGeolocation := False\<rparr>) = None \<and>
   validationErrors (newClick sampleClick ''10.0.0.1'' True) = [] \<and>
   map location (snd (saveNew (sampleEnv\<lparr>enableGeolocation := False\<rparr>) []
                        (newClick sampleClick ''10.0.0.1'' True))) = [emptyLocation]"
proof -
  let ?c = "newClick sampleClick ''172.32.0.1'' True"
  let ?d = "newClick sampleClick ''10.0.0.1'' True"
  let ?off = "sampleEnv\<lparr>enableGeolocation := False\<rparr>"
  have e: "enableGeolocation sampleEnv" "save_fault sampleEnv = None"
    "\<not> enableGeolocation ?off" "save_fault ?off = None"
    by (simp_all add: sampleEnv_def)
  have a: "startsWith (ipAddress ?c) ''172.''" by (simp add: newClick_def startsWith_def)
  have v: "validationErrors ?c = []" "validationErrors ?d = []" by code_simp+
  have n: "list_all isDigit ''32''" "parseInt10 ''32'' = Some 32"
    by (simp_all add: isDigit_def parseInt10_def digitVal_def)
  have l: "location ?d = emptyLocation" by (simp add: newClick_def)
  from private_address_gets_placeholder [of sampleEnv ?c "[]"] e(1,2) a v(1) n
  have "snd (geoHook sampleEnv True ?c) = []"
    and "map location (snd (saveNew sampleEnv [] ?c)) = [localPrivateLocation]"
    and "isPublicIP (''172.'' @ ''32'' @ ''.'' @ ''0.1'')"
    by auto
  moreover have "map location (snd (saveNew ?off [] ?d)) = [emptyLocation]"
  proof -
    from private_address_gets_placeholder [of ?off ?d "[]"] e(3,4) v(2)
    have "\<exists>c'. saveNew ?off [] ?d = (Inr c', [] @ [c']) \<and> location c' = location ?d"
      by blast
    with l show ?thesis by auto
  qed
  ultimately show ?thesis using e a v n by simp
qed

lemma startsWith_iff: "startsWith s p = (\<exists>post. s = p @ post)"
proof
  assume "startsWith s p"
  then have "s = p @ drop (length p) s"
    by (metis append_take_drop_id startsWith_def)
  then show "\<exists>post. s = p @ post" ..
next
  assume "\<exists>post. s = p @ post"
  then show "startsWith s p" by (auto simp: startsWith_def)
qed

lemma containsAt_iff: "containsAt p s = (\<exists>pre post. s = pre @ p @ post)"
proof (induction s)
  case Nil
  show ?case by auto
next
  case (Cons c cs)
  show ?case
  proof
    assume "containsAt p (c # cs)"
    then consider "startsWith (c # cs) p" | "containsAt p cs" by auto
    then show "\<exists>pre post. c # cs = pre @ p @ post"
    proof cases
      case 1
      then obtain post where "c # cs = p @ post" by (auto simp: startsWith_iff)
      then have "c # cs = [] @ p @ post" by simp
      then show ?thesis by blast
    next
      case 2
      with Cons obtain pre post where "cs = pre @ p @ post" by auto
      then have "c # cs = (c # pre) @ p @ post" by simp
      then show ?thesis by blast
    qed
  next
    assume "\<exists>pre post. c # cs = pre @ p @ post"
    then obtain pre post where e: "c # cs = pre @ p @ post" by blast
    show "containsAt p (c # cs)"
    proof (cases pre)
      case Nil
      with e have "startsWith (c # cs) p" by (auto simp: startsWith_iff)
      then show ?thesis by simp
    next
      case (Cons x pre')
      with e have "cs = pre' @ p @ post" by simp
      with Cons.IH have "containsAt p cs" by blast
      then show ?thesis by simp
    qed
  qed
qed

lemma detectBot_iff:
  "detectBot ua = (\<exists>p \<in> set botPatterns. \<exists>pre post. map toLowerAscii ua = pre @ p @ post)"
  by (simp add: detectBot_def list_ex_iff regexTestI_def containsAt_iff)

lemma getUrlAnalytics_skips_bot:
  assumes "isBot c"
  shows "getUrlAnalytics t fault (store @ [c]) uid defaultOptions =
         getUrlAnalytics t fault store uid defaultOptions"
proof -
  have "excludeBotsOf defaultOptions" by (simp add: excludeBotsOf_def defaultOptions_def)
  with assms have "\<not> matchStage uid s d (excludeBotsOf defaultOptions) c" for s d
    by (simp add: matchStage_def)
  then have "filter (matchStage uid s d (excludeBotsOf defaultOptions)) (store @ [c]) =
             filter (matchStage uid s d (excludeBotsOf defaultOptions)) store" for s d
    by simp
  then show ?thesis by (simp add: getUrlAnalytics_def Let_def split: option.splits)
qed

text \<open>
  C10. A new click saved with a non-empty user agent is stored with \<open>isBot = true\<close> exactly
  when the user agent, with its ASCII letters lower-cased, contains one of the fourteen
  pattern words. In particular a user agent containing \<open>google\<close> or \<open>facebook\<close> in any
  letter case is stored as a bot, and \<open>getUrlAnalytics\<close> with default options (where
  \<open>excludeBots\<close> is true) gives the same report with or without that event.
\<close>

theorem stored_bot_flag_matches_patterns:
  assumes "ua \<noteq> []" and "userAgent c = Some ua"
    and "validationErrors c = []" and "save_fault e = None"
  shows "\<exists>c'. saveNew e store c = (Inr c', store @ [c']) \<and>
           (isBot c' = (\<exists>p \<in> set botPatterns. \<exists>pre post. map toLowerAscii ua = pre @ p @ post)) \<and>
           (((\<exists>pre post. map toLowerAscii ua = pre @ ''google'' @ post) \<or>
             (\<exists>pre post. map toLowerAscii ua = pre @ ''facebook'' @ post)) \<longrightarrow>
              isBot c' \<and> excludeBotsOf defaultOptions \<and>
              \<not> matchStage uid (startDateOf t defaultOptions) (endDateOf t defaultOptions)
                   (excludeBotsOf defaultOptions) c' \<and>
              getUrlAnalytics t fault (store @ [c']) uid defaultOptions =
                getUrlAnalytics t fault store uid defaultOptions)"
proof -
  let ?c = "(botHook True (fst (geoHook e True c)))\<lparr>clickedAt := now e\<rparr>"
  have s: "saveNew e store c = (Inr ?c, store @ [?c])"
    using saveNew_ok [OF assms(3,4)] .
  from assms(1,2) have b: "isBot ?c = detectBot ua"
    by (simp add: botHook_def geoHook_fields truthy_def)
  have w: "''google'' \<in> set botPatterns" "''facebook'' \<in> set botPatterns"
    by (simp_all add: botPatterns_def)
  have x: "excludeBotsOf defaultOptions" by (simp add: excludeBotsOf_def defaultOptions_def)
  have i: "isBot ?c"
    if "(\<exists>pre post. map toLowerAscii ua = pre @ ''google'' @ post) \<or>
        (\<exists>pre post. map toLowerAscii ua = pre @ ''facebook'' @ post)"
    using that w unfolding b detectBot_iff by blast
  have m: "\<not> matchStage uid (startDateOf t defaultOptions) (endDateOf t defaultOptions)
                   (excludeBotsOf defaultOptions) ?c" if "isBot ?c"
    using that x by (simp add: matchStage_def)
  show ?thesis
    using s b i m x getUrlAnalytics_skips_bot [of ?c t fault store uid]
    unfolding detectBot_iff by (intro exI [of _ ?c]) blast
qed


theorem stored_bot_flag_matches_patterns_witness:
  "userAgent (newClick (sampleClick\<lparr>cd_userAgent :=
       Some ''Mozilla/5.0 (Linux; Android 13) Chrome/115.0 GoogleApp/14.2''\<rparr>) ''203.0.113.5'' True) =
     Some ''Mozilla/5.0 (Linux; Android 13) Chrome/115.0 GoogleApp/14.2'' \<and>
   validationErrors (newClick (sampleClick\<lparr>cd_userAgent :=
       Some ''Mozilla/5.0 (Linux; Android 13) Chrome/115.0 GoogleApp/14.2''\<rparr>) ''203.0.113.5'' True) = [] \<and>
   save_fault sampleEnv = None \<and>
   map toLowerAscii ''Mozilla/5.0 (Linux; Android 13) Chrome/115.0 GoogleApp/14.2'' =
     ''mozilla/5.0 (linux; android 13) chrome/115.0 '' @ ''google'' @ ''app/14.2'' \<and>
   map isBot (snd (saveNew sampleEnv [] (newClick (sampleClick\<lparr>cd_userAgent :=
       Some ''Mozilla/5.0 (Linux; Android 13) Chrome/115.0 GoogleApp/14.2''\<rparr>) ''203.0.113.5'' True))) =
     [True] \<and>
   getUrlAnalytics 2000 None
     (snd (saveNew sampleEnv [] (newClick (sampleClick\<lparr>cd_userAgent :=
       Some ''Mozilla/5.0 (Linux; Android 13) Chrome/115.0 GoogleApp/14.2''\<rparr>) ''203.0.113.5'' True)))
     1 defaultOptions = getUrlAnalytics 2000 None [] 1 defaultOptions \<and>
   map isBot (snd (saveNew sampleEnv [] (newClick sampleClick ''203.0.113.5'' True))) = [False]"
proof -
  let ?ua = "''Mozilla/5.0 (Linux; Android 13) Chrome/115.0 GoogleApp/14.2''"
  let ?c = "newClick (sampleClick\<lparr>cd_userAgent := Some ?ua\<rparr>) ''203.0.113.5'' True"
  have n: "?ua \<noteq> []" by simp
  have u: "userAgent ?c = Some ?ua" by (simp add: newClick_def)
  have v: "validationErrors ?c = []" by code_simp
  have f: "save_fault sampleEnv = None" by (simp add: sampleEnv_def)
  have l: "map toLowerAscii ?ua =
     ''mozilla/5.0 (linux; android 13) chrome/115.0 '' @ ''google'' @ ''app/14.2''"
    by code_simp
  then have g: "(\<exists>pre post. map toLowerAscii ?ua = pre @ ''google'' @ post) \<or>
             (\<exists>pre post. map toLowerAscii ?ua = pre @ ''facebook'' @ post)"
    by blast
  from stored_bot_flag_matches_patterns [OF n u v f, of "[]" 1 2000 None] g
  obtain c' where c': "saveNew sampleEnv [] ?c = (Inr c', [] @ [c'])" "isBot c'"
    "getUrlAnalytics 2000 None ([] @ [c']) 1 defaultOptions = getUrlAnalytics 2000 None [] 1 defaultOptions"
    by blast
  have o: "map isBot (snd (saveNew sampleEnv [] (newClick sampleClick ''203.0.113.5'' True))) = [False]"
    by code_simp
  from c' u v f l o show ?thesis by simp
qed

section \<open>Aggregation over an empty selection\<close>

lemma facets_empty:
  "overviewFacet [] = []" "byCountryFacet [] = []" "byDeviceFacet [] = []"
  "byBrowserFacet [] = []" "byReferrerFacet [] = []" "clicksByHourFacet [] = []"
  "clicksByDayFacet [] = []"
  by (simp_all add: overviewFacet_def byCountryFacet_def byDeviceFacet_def byBrowserFacet_def
      byReferrerFacet_def clicksByHourFacet_def clicksByDayFacet_def sortByCountDesc_def
      countRows_def present_def List.map_filter_simps)

text \<open>
  C6. When the \<open>$match\<close> stage of \<open>getUrlAnalytics\<close> selects no event and the aggregate
  call goes through, the result is a report, not an error: the overview is the zero
  overview (all three counters 0 and average load time 0) and every facet list is empty.
  When no event falls into the window of \<open>getRealTimeStats\<close>, the result is the all-zero
  statistics.
\<close>

theorem empty_selection_gives_zero_report:
  "(filter (matchStage uid (startDateOf t opts) (endDateOf t opts) (excludeBotsOf opts)) store = [] \<longrightarrow>
      getUrlAnalytics t None store uid opts =
        Inr \<lparr> overview = \<lparr> totalClicks = 0, ov_uniqueClicks = 0, botClicks = 0,
                             averageLoadTime = Some 0 \<rparr>,
              byCountry = [], byDevice = [], byBrowser = [], byReferrer = [],
              clicksByHour = [], clicksByDay = [],
              dateRange = (startDateOf t opts, endDateOf t opts) \<rparr>) \<and>
   (filter (realTimeMatch (t - minutes * 60 * 1000)) store = [] \<longrightarrow>
      getRealTimeStats t None store minutes =
        Inr \<lparr> recentClicks = 0, activeUrls = 0, activeCountries = 0, avgClicksPerMinute = 0 \<rparr>)"
  by (simp add: getUrlAnalytics_def getRealTimeStats_def realTimeAggregate_def facets_empty
      zeroOverview_def zeroStats_def Let_def)

theorem empty_selection_gives_zero_report_witness:
  "filter (matchStage 2 (startDateOf 2000 defaultOptions) (endDateOf 2000 defaultOptions)
             (excludeBotsOf defaultOptions))
     (clicks (snd (recordClick sampleEnv sampleDb sampleClick))) = [] \<and>
   length (clicks (snd (recordClick sampleEnv sampleDb sampleClick))) = 1 \<and>
   getUrlAnalytics 2000 None (clicks (snd (recordClick sampleEnv sampleDb sampleClick))) 2
       defaultOptions =
     Inr \<lparr> overview = \<lparr> totalClicks = 0, ov_uniqueClicks = 0, botClicks = 0,
                          averageLoadTime = Some 0 \<rparr>,
           byCountry = [], byDevice = [], byBrowser = [], byReferrer = [],
           clicksByHour = [], clicksByDay = [],
           dateRange = (startDateOf 2000 defaultOptions, endDateOf 2000 defaultOptions) \<rparr> \<and>
   filter (realTimeMatch (7300000 - 60 * 60 * 1000))
     (clicks (snd (recordClick sampleEnv sampleDb sampleClick))) = [] \<and>
   getRealTimeStats 7300000 None (clicks (snd (recordClick sampleEnv sampleDb sampleClick))) 60 =
     Inr \<lparr> recentClicks = 0, activeUrls = 0, activeCountries = 0, avgClicksPerMinute = 0 \<rparr>"
proof -
  let ?store = "clicks (snd (recordClick sampleEnv sampleDb sampleClick))"
  have a: "filter (matchStage 2 (startDateOf 2000 defaultOptions) (endDateOf 2000 defaultOptions)
             (excludeBotsOf defaultOptions)) ?store = []"
    by code_simp
  have b: "filter (realTimeMatch (7300000 - 60 * 60 * 1000)) ?store = []"
    by code_simp
  have c: "length ?store = 1" by code_simp
  from empty_selection_gives_zero_report [of 2 2000 defaultOptions ?store 60] a
  have r1: "getUrlAnalytics 2000 None ?store 2 defaultOptions =
     Inr \<lparr> overview = \<lparr> totalClicks = 0, ov_uniqueClicks = 0, botClicks = 0,
                          averageLoadTime = Some 0 \<rparr>,
           byCountry = [], byDevice = [], byBrowser = [], byReferrer = [],
           clicksByHour = [], clicksByDay = [],
           dateRange = (startDateOf 2000 defaultOptions, endDateOf 2000 defaultOptions) \<rparr>"
    by blast
  from empty_selection_gives_zero_report [of 2 7300000 defaultOptions ?store 60] b
  have r2: "getRealTimeStats 7300000 None ?store 60 =
     Inr \<lparr> recentClicks = 0, activeUrls = 0, activeCountries = 0, avgClicksPerMinute = 0 \<rparr>"
    by blast
  from a b c r1 r2 show ?thesis by simp
qed

section \<open>Properties of the retention purge\<close>

lemma cleanupOldClicks_removes_old:
  "cleanupOldClicks t None store days =
     (Inr (countWhere (olderThan (cutoffOf t days)) store, cutoffOf t days, days),
      filter (\<lambda>c. \<not> olderThan (cutoffOf t days) c) store)"
  by (simp add: cleanupOldClicks_def Let_def)

lemma deleteMany_forwarded_rejected:
  "2 \<le> limit \<Longrightarrow>
   deleteMany LimitForwarded P limit store =
     Inl (Error (''The limit field in delete objects must be 0 or 1. Got '' @ showNat limit))"
  by (simp add: deleteMany_def)

lemma deleteMany_dropped:
  "deleteMany LimitDropped P limit store =
     Inr (filter (\<lambda>c. \<not> P c) store, countWhere P store)"
  by (simp add: deleteMany_def)

lemma deleteMany_zero:
  "deleteMany handling P 0 store = Inr (filter (\<lambda>c. \<not> P c) store, countWhere P store)"
  by (cases handling) (simp_all add: deleteMany_def)

lemma deleteMany_one:
  "deleteMany LimitForwarded P (Suc 0) store =
     Inr (deleteFirst P store, if list_ex P store then 1 else 0)"
  by (simp add: deleteMany_def)

lemma deleteFirst_none: "\<not> list_ex P xs \<Longrightarrow> deleteFirst P xs = xs"
  by (induction xs) simp_all

lemma filter_none: "\<not> list_ex P xs \<Longrightarrow> filter (\<lambda>c. \<not> P c) xs = xs"
  by (induction xs) simp_all

lemma countWhere_none: "\<not> list_ex P xs \<Longrightarrow> countWhere P xs = 0"
  by (induction xs) (simp_all add: countWhere_def)

lemma deleteFirst_count:
  "list_ex P xs \<Longrightarrow> Suc (countWhere P (deleteFirst P xs)) = countWhere P xs"
  by (induction xs) (auto simp: countWhere_def)

lemma deleteFirst_keeps_others:
  "filter (\<lambda>c. \<not> P c) (deleteFirst P xs) = filter (\<lambda>c. \<not> P c) xs"
  by (induction xs) simp_all

text \<open>
  C7 fails in the program. A dry run does report the number of events older than the
  cutoff and deletes nothing. A real run hands \<open>{limit: batchSize}\<close> to \<open>deleteMany\<close>,
  which has no such bound. Where the option is forwarded to the server, a batch size of 2
  or more (the default is 1000) is rejected by the first call: the purge throws and no
  event is deleted, however many are older than the cutoff. Where the option is dropped,
  the first call deletes every event older than the cutoff at once, so a store with more
  such events than \<open>batchSize\<close> sees a single deletion larger than the batch size.
\<close>

theorem purge_batches_rejected_or_unbounded:
  fixes ce :: cleanupEnv and st :: db and opts :: cleanupOptions
  defines "cutoff \<equiv> cutoffOf (cl_now ce) (retentionDaysOf opts)"
  defines "n \<equiv> countWhere (olderThan cutoff) (clicks st)"
  shows
  "(dryRunOf opts \<and> count_fault ce = None \<longrightarrow>
      cleanupAnalyticsData ce st opts =
        Some (Inr (DryRunReport n cutoff (retentionDaysOf opts)), st, [])) \<and>
   (\<not> dryRunOf opts \<and> delete_fault ce 0 = None \<and> delete_limit ce = LimitForwarded \<and>
    2 \<le> batchSizeOf opts \<longrightarrow>
      cleanupAnalyticsData ce st opts =
        Some (Inl (Error (''Analytics data cleanup failed: '' @
                          ''The limit field in delete objects must be 0 or 1. Got '' @
                          showNat (batchSizeOf opts))), st, [])) \<and>
   (\<not> dryRunOf opts \<and> delete_fault ce 0 = None \<and> delete_limit ce = LimitDropped \<and>
    batchSizeOf opts < n \<longrightarrow>
      cleanupAnalyticsData ce st opts =
        Some (Inr (CleanupReport n cutoff (retentionDaysOf opts) (cl_now ce)),
              st\<lparr>clicks := filter (\<lambda>c. \<not> olderThan cutoff c) (clicks st)\<rparr>,
              [DeleteBatch n]) \<and>
      \<not> wellPaced (batchSizeOf opts) [DeleteBatch n])"
proof (intro conjI impI)
  assume "dryRunOf opts \<and> count_fault ce = None"
  then show "cleanupAnalyticsData ce st opts =
      Some (Inr (DryRunReport n cutoff (retentionDaysOf opts)), st, [])"
    by (simp add: cleanupAnalyticsData_def Let_def cutoff_def n_def)
next
  assume h: "\<not> dryRunOf opts \<and> delete_fault ce 0 = None \<and> delete_limit ce = LimitForwarded \<and>
             2 \<le> batchSizeOf opts"
  then have "deleteLoop LimitForwarded (delete_fault ce) cutoff (batchSizeOf opts) 0 (clicks st) 0 [] =
      Some (Inl (Error (''The limit field in delete objects must be 0 or 1. Got '' @
                        showNat (batchSizeOf opts))), clicks st, [])"
    by (subst deleteLoop.simps) (simp add: deleteMany_forwarded_rejected)
  with h show "cleanupAnalyticsData ce st opts =
      Some (Inl (Error (''Analytics data cleanup failed: '' @
                        ''The limit field in delete objects must be 0 or 1. Got '' @
                        showNat (batchSizeOf opts))), st, [])"
    by (simp add: cleanupAnalyticsData_def Let_def cutoff_def)
next
  assume h: "\<not> dryRunOf opts \<and> delete_fault ce 0 = None \<and> delete_limit ce = LimitDropped \<and>
             batchSizeOf opts < n"
  then have "deleteLoop LimitDropped (delete_fault ce) cutoff (batchSizeOf opts) 0 (clicks st) 0 [] =
      Some (Inr n, filter (\<lambda>c. \<not> olderThan cutoff c) (clicks st), [DeleteBatch n])"
    by (subst deleteLoop.simps) (simp add: deleteMany_dropped n_def)
  with h show "cleanupAnalyticsData ce st opts =
      Some (Inr (CleanupReport n cutoff (retentionDaysOf opts) (cl_now ce)),
            st\<lparr>clicks := filter (\<lambda>c. \<not> olderThan cutoff c) (clicks st)\<rparr>,
            [DeleteBatch n])"
    by (simp add: cleanupAnalyticsData_def Let_def cutoff_def)
next
  assume "\<not> dryRunOf opts \<and> delete_fault ce 0 = None \<and> delete_limit ce = LimitDropped \<and>
          batchSizeOf opts < n"
  then show "\<not> wellPaced (batchSizeOf opts) [DeleteBatch n]" by simp
qed

theorem purge_batches_rejected_or_unbounded_witness:
  "countWhere (olderThan 1000) sampleStore = 3 \<and>
   cleanupAnalyticsData sampleCleanupEnv (sampleDb\<lparr>clicks := sampleStore\<rparr>) (sampleCleanup True) =
     Some (Inr (DryRunReport 3 1000 0), sampleDb\<lparr>clicks := sampleStore\<rparr>, []) \<and>
   cleanupAnalyticsData sampleCleanupEnv (sampleDb\<lparr>clicks := sampleStore\<rparr>)
     \<lparr> opt_retentionDays = Some 0, opt_batchSize = None, opt_dryRun = None \<rparr> =
     Some (Inl (Error (''Analytics data cleanup failed: '' @
                       ''The limit field in delete objects must be 0 or 1. Got 1000'')),
           sampleDb\<lparr>clicks := sampleStore\<rparr>, []) \<and>
   cleanupAnalyticsData (sampleCleanupEnv\<lparr>delete_limit := LimitDropped\<rparr>)
     (sampleDb\<lparr>clicks := sampleStore\<rparr>)
     \<lparr> opt_retentionDays = Some 0, opt_batchSize = Some 2, opt_dryRun = None \<rparr> =
     Some (Inr (CleanupReport 3 1000 0 1000),
           sampleDb\<lparr>clicks := filter (\<lambda>c. \<not> olderThan 1000 c) sampleStore\<rparr>,
           [DeleteBatch 3]) \<and>
   map clickedAt (filter (\<lambda>c. \<not> olderThan 1000 c) sampleStore) = [5000] \<and>
   \<not> wellPaced 2 [DeleteBatch 3]"
proof -
  let ?st = "sampleDb\<lparr>clicks := sampleStore\<rparr>"
  let ?defaults = "\<lparr> opt_retentionDays = Some 0, opt_batchSize = None, opt_dryRun = None \<rparr>"
  let ?two = "\<lparr> opt_retentionDays = Some 0, opt_batchSize = Some 2, opt_dryRun = None \<rparr>"
  let ?dropped = "sampleCleanupEnv\<lparr>delete_limit := LimitDropped\<rparr>"
  have n: "countWhere (olderThan 1000) sampleStore = 3"
    by (simp add: countWhere_def sampleStore_def olderThan_def)
  have k: "map clickedAt (filter (\<lambda>c. \<not> olderThan 1000 c) sampleStore) = [5000]"
    by (simp add: sampleStore_def olderThan_def)
  have e: "count_fault sampleCleanupEnv = None" "delete_fault sampleCleanupEnv 0 = None"
    "delete_limit sampleCleanupEnv = LimitForwarded" "cl_now sampleCleanupEnv = 1000"
    "delete_fault ?dropped 0 = None" "delete_limit ?dropped = LimitDropped"
    "cl_now ?dropped = 1000"
    by (simp_all add: sampleCleanupEnv_def)
  have o: "dryRunOf (sampleCleanup True)" "retentionDaysOf (sampleCleanup True) = 0"
    "\<not> dryRunOf ?defaults" "retentionDaysOf ?defaults = 0" "batchSizeOf ?defaults = 1000"
    "\<not> dryRunOf ?two" "retentionDaysOf ?two = 0" "batchSizeOf ?two = 2"
    by (simp_all add: sampleCleanup_def dryRunOf_def retentionDaysOf_def batchSizeOf_def)
  have c: "cutoffOf 1000 0 = 1000" by (simp add: cutoffOf_def)
  have s: "showNat 1000 = ''1000''" by code_simp
  have 1: "cleanupAnalyticsData sampleCleanupEnv ?st (sampleCleanup True) =
     Some (Inr (DryRunReport 3 1000 0), ?st, [])"
    using purge_batches_rejected_or_unbounded [of "sampleCleanup True" sampleCleanupEnv ?st]
      e o c n by simp
  have 2: "cleanupAnalyticsData sampleCleanupEnv ?st ?defaults =
     Some (Inl (Error (''Analytics data cleanup failed: '' @
                       ''The limit field in delete objects must be 0 or 1. Got 1000'')),
           ?st, [])"
    using purge_batches_rejected_or_unbounded [of ?defaults sampleCleanupEnv ?st]
      e o c n s by simp
  have 3: "cleanupAnalyticsData ?dropped ?st ?two =
     Some (Inr (CleanupReport 3 1000 0 1000),
           sampleDb\<lparr>clicks := filter (\<lambda>c. \<not> olderThan 1000 c) sampleStore\<rparr>,
           [DeleteBatch 3])"
    using purge_batches_rejected_or_unbounded [of ?two ?dropped ?st]
      e o c n by simp
  from n k 1 2 3 show ?thesis by simp
qed

text \<open>
  Only with a batch size of 1 and the option forwarded does the loop delete in bounded
  batches: every round removes the first matching event, and the round that finds none
  ends the loop.
\<close>

lemma deleteLoop_single_terminates:
  assumes "\<forall>j. dfault j = None"
  shows "\<exists>calls. deleteLoop LimitForwarded dfault cutoff 1 k store tot tr =
            Some (Inr (tot + countWhere (olderThan cutoff) store),
                  filter (\<lambda>c. \<not> olderThan cutoff c) store, tr @ calls) \<and>
          wellPaced 1 calls \<and> deletedIn calls = countWhere (olderThan cutoff) store"
proof (induction "countWhere (olderThan cutoff) store" arbitrary: store tot tr k
       rule: less_induct)
  case less
  let ?P = "olderThan cutoff"
  let ?m = "countWhere ?P store"
  have nf: "dfault k = None" using assms by simp
  show ?case
  proof (cases "list_ex ?P store")
    case False
    from False have f: "deleteFirst ?P store = store" "filter (\<lambda>c. \<not> ?P c) store = store"
      "?m = 0"
      by (simp_all add: deleteFirst_none filter_none countWhere_none)
    from nf False f have "deleteLoop LimitForwarded dfault cutoff 1 k store tot tr =
        Some (Inr (tot + ?m), filter (\<lambda>c. \<not> ?P c) store, tr @ [DeleteBatch 0])"
      by (subst deleteLoop.simps) (simp add: deleteMany_one)
    moreover have "wellPaced 1 [DeleteBatch 0]" by simp
    moreover from f(3) have "deletedIn [DeleteBatch 0] = ?m" by simp
    ultimately show ?thesis by blast
  next
    case True
    let ?s = "deleteFirst ?P store"
    from deleteFirst_count [OF True] have rem: "Suc (countWhere ?P ?s) = ?m" .
    then have lt: "countWhere ?P ?s < ?m" by simp
    from less [OF lt, of "k + 1" "tot + 1" "tr @ [DeleteBatch 1, Pause 100]"]
    obtain calls where c:
      "deleteLoop LimitForwarded dfault cutoff 1 (k + 1) ?s (tot + 1)
         (tr @ [DeleteBatch 1, Pause 100]) =
         Some (Inr (tot + 1 + countWhere ?P ?s), filter (\<lambda>c. \<not> ?P c) ?s,
               (tr @ [DeleteBatch 1, Pause 100]) @ calls)"
      "wellPaced 1 calls" "deletedIn calls = countWhere ?P ?s"
      by blast
    have keep: "filter (\<lambda>c. \<not> ?P c) ?s = filter (\<lambda>c. \<not> ?P c) store"
      by (rule deleteFirst_keeps_others)
    from rem have t: "tot + 1 + countWhere ?P ?s = tot + ?m" by simp
    from nf True c(1) have "deleteLoop LimitForwarded dfault cutoff 1 k store tot tr =
        Some (Inr (tot + ?m), filter (\<lambda>c. \<not> ?P c) store,
              tr @ (DeleteBatch 1 # Pause 100 # calls))"
      unfolding keep t by (subst deleteLoop.simps) (simp add: deleteMany_one)
    moreover from c(2) have "wellPaced 1 (DeleteBatch 1 # Pause 100 # calls)" by simp
    moreover from c(3) rem have "deletedIn (DeleteBatch 1 # Pause 100 # calls) = ?m" by simp
    ultimately show ?thesis by blast
  qed
qed

text \<open>
  With a batch size of 0 and nothing to delete, every call reports 0 deletions, which
  equals the batch size; the loop then never ends.
\<close>

lemma deleteLoop_zero_batch_aux:
  assumes "deleteLoop handling dfault cutoff b k store tot tr = Some y"
  shows "\<not> ((\<forall>j. dfault j = None) \<and> b = 0 \<and> countWhere (olderThan cutoff) store = 0)"
proof (rule deleteLoop.raw_induct
    [where P = "\<lambda>handling dfault cutoff b k store tot tr y.
        \<not> ((\<forall>j. dfault j = None) \<and> b = 0 \<and> countWhere (olderThan cutoff) store = 0)",
     OF _ assms])
  fix loop handling dfault cutoff b k store tot tr y
  assume IH: "\<And>handling dfault cutoff b k store tot tr y.
      loop handling dfault cutoff b k store tot tr = Some y \<Longrightarrow>
      \<not> ((\<forall>j. dfault j = None) \<and> b = 0 \<and> countWhere (olderThan cutoff) store = 0)"
    and eq: "(case dfault k of
        None \<Rightarrow>
          (case deleteMany handling (olderThan cutoff) b store of
             Inl err \<Rightarrow> Some (Inl err, store, tr)
           | Inr (store', deletedCount) \<Rightarrow>
               if deletedCount = b
               then loop handling dfault cutoff b (k + 1) store' (tot + deletedCount)
                      (tr @ [DeleteBatch deletedCount, Pause 100])
               else Some (Inr (tot + deletedCount), store', tr @ [DeleteBatch deletedCount]))
      | Some msg \<Rightarrow> Some (Inl (Error msg), store, tr)) = Some y"
  show "\<not> ((\<forall>j. dfault j = None) \<and> b = 0 \<and> countWhere (olderThan cutoff) store = 0)"
  proof
    assume h: "(\<forall>j. dfault j = None) \<and> b = 0 \<and> countWhere (olderThan cutoff) store = 0"
    have z: "countWhere (olderThan cutoff) (filter (\<lambda>c. \<not> olderThan cutoff c) store) = 0"
      by (simp add: countWhere_def)
    from eq h have "loop handling dfault cutoff b (k + 1)
        (filter (\<lambda>c. \<not> olderThan cutoff c) store)
        (tot + b) (tr @ [DeleteBatch b, Pause 100]) = Some y"
      by (simp add: deleteMany_zero)
    from IH [OF this] h z show False by simp
  qed
qed

lemma deleteLoop_zero_batch_never_ends:
  assumes "\<forall>j. dfault j = None" and "countWhere (olderThan cutoff) store = 0"
  shows "deleteLoop handling dfault cutoff 0 k store tot tr = None"
proof (cases "deleteLoop handling dfault cutoff 0 k store tot tr")
  case None
  then show ?thesis .
next
  case (Some y)
  from deleteLoop_zero_batch_aux [OF Some] assms show ?thesis by simp
qed

section \<open>The URL counters\<close>

lemma updateUrlStats_at:
  assumes "us uid = Some u"
  shows "\<exists>u'. updateUrlStats e us target q uid = Some u' \<and>
          clickCount u \<le> clickCount u' \<and> uniqueClicks u \<le> uniqueClicks u' \<and>
          (uniqueClicks u \<le> clickCount u \<longrightarrow> uniqueClicks u' \<le> clickCount u')"
  using assms by (auto simp: updateUrlStats_def split: option.splits)

lemma updateUrlStats_exact:
  assumes "urlUpdate_fault e = None" and "us uid = Some u"
  shows "updateUrlStats e us uid q =
           us(uid \<mapsto> u\<lparr> clickCount := clickCount u + 1,
                        uniqueClicks := (if q then uniqueClicks u + 1 else uniqueClicks u),
                        lastClickedAt := Some (now e) \<rparr>)"
  using assms by (simp add: updateUrlStats_def)

lemma recordClick_urls:
  "urls (snd (recordClick e st cd)) = urls st \<or>
   (\<exists>q. urls (snd (recordClick e st cd)) = updateUrlStats e (urls st) (cd_urlId cd) q)"
  using recordClick_cases [of e st cd] by auto

lemma recordClick_counters:
  assumes "urls st uid = Some u" and "uniqueClicks u \<le> clickCount u"
  shows "\<exists>u'. urls (snd (recordClick e st cd)) uid = Some u' \<and>
          clickCount u \<le> clickCount u' \<and> uniqueClicks u \<le> uniqueClicks u' \<and>
          uniqueClicks u' \<le> clickCount u'"
proof -
  have "\<exists>u'. updateUrlStats e (urls st) (cd_urlId cd) q uid = Some u' \<and>
          clickCount u \<le> clickCount u' \<and> uniqueClicks u \<le> uniqueClicks u' \<and>
          (uniqueClicks u \<le> clickCount u \<longrightarrow> uniqueClicks u' \<le> clickCount u')" for q
    using assms(1) by (rule updateUrlStats_at)
  with recordClick_urls [of e st cd] assms show ?thesis by auto
qed

lemma cleanup_keeps_urls:
  assumes "cleanupAnalyticsData ce st opts = Some (r, st', calls)"
  shows "urls st' = urls st"
  using assms
  by (auto simp: cleanupAnalyticsData_def Let_def
      split: if_splits option.splits prod.splits sum.splits error.splits)

lemma applyOps_counters:
  assumes "applyOps ops st = Some st'"
    and "urls st uid = Some u" and "uniqueClicks u \<le> clickCount u"
  shows "\<exists>u'. urls st' uid = Some u' \<and>
          clickCount u \<le> clickCount u' \<and> uniqueClicks u \<le> uniqueClicks u' \<and>
          uniqueClicks u' \<le> clickCount u'"
  using assms
proof (induction ops arbitrary: st u)
  case Nil
  then show ?case by simp
next
  case (Cons op ops)
  show ?case
  proof (cases op)
    case (Ingest e cd)
    from recordClick_counters [OF Cons.prems(2,3), of e cd] obtain u1 where
      u1: "urls (snd (recordClick e st cd)) uid = Some u1" "clickCount u \<le> clickCount u1"
        "uniqueClicks u \<le> uniqueClicks u1" "uniqueClicks u1 \<le> clickCount u1"
      by blast
    from Cons.prems(1) Ingest have "applyOps ops (snd (recordClick e st cd)) = Some st'"
      by simp
    from Cons.IH [OF this u1(1) u1(4)] obtain u' where
      "urls st' uid = Some u'" "clickCount u1 \<le> clickCount u'"
        "uniqueClicks u1 \<le> uniqueClicks u'" "uniqueClicks u' \<le> clickCount u'"
      by blast
    with u1 show ?thesis by auto
  next
    case (Purge ce opts)
    with Cons.prems(1) obtain outcome st1 calls where
      c: "cleanupAnalyticsData ce st opts = Some (outcome, st1, calls)"
        "applyOps ops st1 = Some st'"
      by (auto split: option.splits)
    from cleanup_keeps_urls [OF c(1)] Cons.prems(2) have "urls st1 uid = Some u" by simp
    from Cons.IH [OF c(2) this Cons.prems(3)] show ?thesis .
  qed
qed

text \<open>
  C2. Take a URL whose counters satisfy \<open>uniqueClicks \<le> clickCount\<close>. After any sequence
  of ingestions and retention purges the URL is still there, both counters are at least
  as large as before and \<open>uniqueClicks \<le> clickCount\<close> still holds (the queries return no
  database at all). An ingestion that stores its event changes the URL documents by one
  \<open>_updateUrlStats\<close> call with that event's \<open>isUnique\<close> flag, and when this update goes
  through it adds exactly 1 to \<open>clickCount\<close>, adds 1 to \<open>uniqueClicks\<close> exactly when the
  flag is true, sets \<open>lastClickedAt\<close> to the current time, and leaves every other URL as
  it was.
\<close>

theorem url_counters_invariant_and_update:
  assumes "urls st uid = Some u" and "uniqueClicks u \<le> clickCount u"
  shows "(\<forall>st'. applyOps ops st = Some st' \<longrightarrow>
            (\<exists>u'. urls st' uid = Some u' \<and>
               clickCount u \<le> clickCount u' \<and> uniqueClicks u \<le> uniqueClicks u' \<and>
               uniqueClicks u' \<le> clickCount u')) \<and>
         (\<forall>r. fst (recordClick e st cd) = Inr r \<longrightarrow>
            urls (snd (recordClick e st cd)) =
              updateUrlStats e (urls st) (cd_urlId cd) (isUnique (rr_click r))) \<and>
         (urlUpdate_fault e = None \<longrightarrow>
            updateUrlStats e (urls st) uid q =
              (urls st)(uid \<mapsto> u\<lparr> clickCount := clickCount u + 1,
                                   uniqueClicks := (if q then uniqueClicks u + 1 else uniqueClicks u),
                                   lastClickedAt := Some (now e) \<rparr>))"
proof (intro conjI allI impI)
  fix st'
  assume "applyOps ops st = Some st'"
  from applyOps_counters [OF this assms]
  show "\<exists>u'. urls st' uid = Some u' \<and>
            clickCount u \<le> clickCount u' \<and> uniqueClicks u \<le> uniqueClicks u' \<and>
            uniqueClicks u' \<le> clickCount u'" .
next
  fix r
  assume r: "fst (recordClick e st cd) = Inr r"
  let ?n = "normalizeIpAddress (cd_ipAddress cd) (cd_headers cd)"
  let ?q = "isUniqueClick (findOne_fault e) (clicks st) (cd_urlId cd) ?n"
  from recordClick_cases [of e st cd] r obtain c where
    c: "saveNew e (clicks st) (newClick cd ?n ?q) = (Inr c, clicks st @ [c])"
      "rr_click r = c"
      "urls (snd (recordClick e st cd)) = updateUrlStats e (urls st) (cd_urlId cd) ?q"
    by auto
  from saveNew_cases [of e "clicks st" "newClick cd ?n ?q"] c(1)
  have "c = (botHook True (fst (geoHook e True (newClick cd ?n ?q))))\<lparr>clickedAt := now e\<rparr>"
    by auto
  then have "isUnique c = ?q"
    by (simp add: botHook_fields geoHook_fields newClick_def)
  with c(2,3) show "urls (snd (recordClick e st cd)) =
      updateUrlStats e (urls st) (cd_urlId cd) (isUnique (rr_click r))"
    by simp
next
  assume "urlUpdate_fault e = None"
  then show "updateUrlStats e (urls st) uid q =
      (urls st)(uid \<mapsto> u\<lparr> clickCount := clickCount u + 1,
                           uniqueClicks := (if q then uniqueClicks u + 1 else uniqueClicks u),
                           lastClickedAt := Some (now e) \<rparr>)"
    using assms(1) by (rule updateUrlStats_exact)
qed

theorem url_counters_invariant_and_update_witness:
  "urls sampleDb 1 = Some sampleUrl \<and> uniqueClicks sampleUrl \<le> clickCount sampleUrl \<and>
   map_option (\<lambda>st'. (length (clicks st'),
                       map_option (\<lambda>u. (clickCount u, uniqueClicks u, lastClickedAt u)) (urls st' 1)))
     (applyOps [Ingest sampleEnv sampleClick, Ingest sampleEnv sampleClick,
                Purge (sampleCleanupEnv\<lparr>cl_now := 5000\<rparr>) (sampleCleanup False),
                Ingest (sampleEnv\<lparr>now := 6000\<rparr>) sampleClick] sampleDb) =
     Some (1, Some (3, 2, Some 6000)) \<and>
   urlUpdate_fault sampleEnv = None \<and>
   updateUrlStats sampleEnv (urls sampleDb) 1 True =
     (urls sampleDb)(1 \<mapsto> sampleUrl\<lparr> clickCount := 1, uniqueClicks := 1,
                                        lastClickedAt := Some 1000 \<rparr>)"
proof -
  let ?ops = "[Ingest sampleEnv sampleClick, Ingest sampleEnv sampleClick,
               Purge (sampleCleanupEnv\<lparr>cl_now := 5000\<rparr>) (sampleCleanup False),
               Ingest (sampleEnv\<lparr>now := 6000\<rparr>) sampleClick]"
  have a: "urls sampleDb 1 = Some sampleUrl" "uniqueClicks sampleUrl \<le> clickCount sampleUrl"
    by (simp_all add: sampleDb_def sampleUrl_def)
  have f: "urlUpdate_fault sampleEnv = None" "now sampleEnv = 1000"
    by (simp_all add: sampleEnv_def)
  have z: "clickCount sampleUrl = 0" "uniqueClicks sampleUrl = 0"
    by (simp_all add: sampleUrl_def)
  have r: "map_option (\<lambda>st'. (length (clicks st'),
                       map_option (\<lambda>u. (clickCount u, uniqueClicks u, lastClickedAt u)) (urls st' 1)))
     (applyOps ?ops sampleDb) = Some (1, Some (3, 2, Some 6000))"
    by code_simp
  from url_counters_invariant_and_update [OF a, where e = sampleEnv and q = True] f(1)
  have "updateUrlStats sampleEnv (urls sampleDb) 1 True =
     (urls sampleDb)(1 \<mapsto> sampleUrl\<lparr> clickCount := clickCount sampleUrl + 1,
          uniqueClicks := (if True then uniqueClicks sampleUrl + 1 else uniqueClicks sampleUrl),
          lastClickedAt := Some (now sampleEnv) \<rparr>)"
    by blast
  then have "updateUrlStats sampleEnv (urls sampleDb) 1 True =
     (urls sampleDb)(1 \<mapsto> sampleUrl\<lparr> clickCount := 1, uniqueClicks := 1,
                                        lastClickedAt := Some 1000 \<rparr>)"
    by (simp add: f z)
  with a f r show ?thesis by simp
qed

end
